theory Spec2Isabelle
  imports Main "HOL-Library.Sublist"
begin

section \<open>JavaScript values as the query compiler sees them\<close>

text \<open>
  The virtual client receives its arguments typed \<^verbatim>\<open>any\<close>. The values modelled are the
  ones a payload literal can denote: \<^verbatim>\<open>undefined\<close>, \<^verbatim>\<open>null\<close>, booleans, integral numbers,
  \<^verbatim>\<open>NaN\<close>, strings, arrays and plain objects. An object is the list of its own enumerable
  properties in the order \<^verbatim>\<open>Object.keys\<close> enumerates them. Strings are ASCII.
\<close>

datatype jsval =
    JUndefined
  | JNull
  | JBool bool
  | JNum int
  | JNaN
  | JStr string
  | JArr "jsval list"
  | JObj "(string \<times> jsval) list"

datatype error =
    ModelNotFound string          \<comment> \<open>\<^verbatim>\<open>Modelo ... nao encontrado\<close>\<close>
  | TypeError                     \<comment> \<open>property read or destructuring of \<^verbatim>\<open>undefined\<close>/\<^verbatim>\<open>null\<close>\<close>
  | RecordNotFoundForUpdate       \<comment> \<open>\<^verbatim>\<open>Registro nao encontrado para atualizacao\<close>\<close>
  | RecordNotFoundForDelete       \<comment> \<open>\<^verbatim>\<open>Registro nao encontrado para exclusao\<close>\<close>
  | NoActiveQuery                 \<comment> \<open>\<^verbatim>\<open>Nenhuma query ativa encontrada ...\<close>\<close>
  | QueryNotFound string          \<comment> \<open>\<^verbatim>\<open>Query para a variavel ... nao encontrada\<close>\<close>
  | MethodNotFound                \<comment> \<open>\<^verbatim>\<open>Nao foi possivel identificar o metodo Prisma\<close>\<close>
  | HostError string              \<comment> \<open>an exception of the host: \<^verbatim>\<open>eval\<close> or the database driver\<close>

definition bind_err :: "error + 'a \<Rightarrow> ('a \<Rightarrow> error + 'b) \<Rightarrow> error + 'b" where
  "bind_err m f = (case m of Inl e \<Rightarrow> Inl e | Inr x \<Rightarrow> f x)"

fun map_err :: "('a \<Rightarrow> error + 'b) \<Rightarrow> 'a list \<Rightarrow> error + 'b list" where
  "map_err f [] = Inr []"
| "map_err f (x # xs) =
     bind_err (f x) (\<lambda>y. bind_err (map_err f xs) (\<lambda>ys. Inr (y # ys)))"

subsection \<open>Numbers and strings\<close>

definition digit_char :: "nat \<Rightarrow> char" where
  "digit_char n = ''0123456789'' ! n"

fun show_nat :: "nat \<Rightarrow> string" where
  "show_nat n =
     (if n < 10 then [digit_char n] else show_nat (n div 10) @ [digit_char (n mod 10)])"

declare show_nat.simps [simp del]

definition show_int :: "int \<Rightarrow> string" where
  "show_int i = (if i < 0 then CHR ''-'' # show_nat (nat (- i)) else show_nat (nat i))"

text \<open>\<^verbatim>\<open>Array.prototype.join\<close> on strings.\<close>

fun join :: "string \<Rightarrow> string list \<Rightarrow> string" where
  "join sep [] = []"
| "join sep [x] = x"
| "join sep (x # y # ys) = x @ sep @ join sep (y # ys)"

definition upper_char :: "char \<Rightarrow> char" where
  "upper_char c =
     (let n = (of_char c :: nat) in if 97 \<le> n \<and> n \<le> 122 then char_of (n - 32) else c)"

definition toUpperCase :: "string \<Rightarrow> string" where
  "toUpperCase s = map upper_char s"

text \<open>\<^verbatim>\<open>String(v)\<close>, which is also what a template literal interpolates.\<close>

fun js_to_string :: "jsval \<Rightarrow> string" where
  "js_to_string JUndefined = ''undefined''"
| "js_to_string JNull = ''null''"
| "js_to_string (JBool b) = (if b then ''true'' else ''false'')"
| "js_to_string (JNum n) = show_int n"
| "js_to_string JNaN = ''NaN''"
| "js_to_string (JStr s) = s"
| "js_to_string (JArr xs) =
     join '','' (map (\<lambda>x. if x = JUndefined \<or> x = JNull then [] else js_to_string x) xs)"
| "js_to_string (JObj kvs) = ''[object Object]''"

text \<open>Truthiness, as tested by \<^verbatim>\<open>if (v)\<close>, \<^verbatim>\<open>!v\<close> and \<^verbatim>\<open>a || b\<close>.\<close>

fun truthy :: "jsval \<Rightarrow> bool" where
  "truthy JUndefined = False"
| "truthy JNull = False"
| "truthy (JBool b) = b"
| "truthy (JNum n) = (n \<noteq> 0)"
| "truthy JNaN = False"
| "truthy (JStr s) = (s \<noteq> [])"
| "truthy (JArr xs) = True"
| "truthy (JObj kvs) = True"

subsection \<open>Objects\<close>

definition obj_get :: "(string \<times> jsval) list \<Rightarrow> string \<Rightarrow> jsval" where
  "obj_get kvs k = (case map_of kvs k of Some v \<Rightarrow> v | None \<Rightarrow> JUndefined)"

text \<open>
  \<^verbatim>\<open>o[k] = v\<close> for a key that is not an array index (the code assigns \<^verbatim>\<open>take\<close>,
  \<^verbatim>\<open>createdAt\<close> and \<^verbatim>\<open>updatedAt\<close>): an existing key keeps its place, a new one goes last.
\<close>

definition obj_set :: "(string \<times> jsval) list \<Rightarrow> string \<Rightarrow> jsval \<Rightarrow> (string \<times> jsval) list" where
  "obj_set kvs k v =
     (if k \<in> set (map fst kvs)
      then map (\<lambda>(k', v'). if k' = k then (k', v) else (k', v')) kvs
      else kvs @ [(k, v)])"

text \<open>
  \<^verbatim>\<open>v.name\<close> for the names this code reads (\<^verbatim>\<open>where\<close>, \<^verbatim>\<open>orderBy\<close>, \<^verbatim>\<open>take\<close>,
  \<^verbatim>\<open>skip\<close>, \<^verbatim>\<open>data\<close>, \<^verbatim>\<open>count\<close>), none of which a primitive or an array defines. Reading
  a property of \<^verbatim>\<open>undefined\<close> or \<^verbatim>\<open>null\<close> throws; callers test \<open>nullish\<close> first.
\<close>

definition nullish :: "jsval \<Rightarrow> bool" where
  "nullish v = (v = JUndefined \<or> v = JNull)"

definition js_prop :: "jsval \<Rightarrow> string \<Rightarrow> jsval" where
  "js_prop v k = (case v of JObj kvs \<Rightarrow> obj_get kvs k | _ \<Rightarrow> JUndefined)"

definition index_entries :: "jsval list \<Rightarrow> (string \<times> jsval) list" where
  "index_entries xs = zip (map show_nat [0..<length xs]) xs"

text \<open>
  The own enumerable string-keyed properties of a value that is neither \<^verbatim>\<open>undefined\<close>
  nor \<^verbatim>\<open>null\<close>: an object's properties, the indices of an array or of a string, nothing
  for a number or a boolean.
\<close>

fun own_entries :: "jsval \<Rightarrow> (string \<times> jsval) list" where
  "own_entries (JObj kvs) = kvs"
| "own_entries (JArr xs) = index_entries xs"
| "own_entries (JStr s) = index_entries (map (\<lambda>c. JStr [c]) s)"
| "own_entries _ = []"

text \<open>\<^verbatim>\<open>Object.entries(v)\<close>: throws on \<^verbatim>\<open>undefined\<close> and \<^verbatim>\<open>null\<close>.\<close>

definition object_entries :: "jsval \<Rightarrow> error + (string \<times> jsval) list" where
  "object_entries v = (if nullish v then Inl TypeError else Inr (own_entries v))"

text \<open>Object spread \<^verbatim>\<open>{ ...v }\<close>: never throws, \<^verbatim>\<open>undefined\<close> and \<^verbatim>\<open>null\<close> spread nothing.\<close>

definition spread :: "jsval \<Rightarrow> (string \<times> jsval) list" where
  "spread v = own_entries v"

section \<open>Schema mapping\<close>

text \<open>
  One entry of \<^verbatim>\<open>SCHEMA_MAPPING\<close>: the table and the logical-to-physical column map. The
  \<^verbatim>\<open>relations\<close> component is read by no function and is left out.
\<close>

record model_schema =
  table :: string
  fieldMap :: "(string \<times> string) list"   \<comment> \<open>\<^verbatim>\<open>fields\<close> in the source\<close>

definition SCHEMA_MAPPING_entries :: "(string \<times> model_schema) list" where
  "SCHEMA_MAPPING_entries =
    [(''user'', \<lparr>table = ''users'', fieldMap =
        [(''id'', ''id''), (''email'', ''email''), (''name'', ''name''), (''bio'', ''bio''),
         (''createdAt'', ''createdAt''), (''updatedAt'', ''updatedAt'')]\<rparr>),
     (''profile'', \<lparr>table = ''profiles'', fieldMap =
        [(''id'', ''id''), (''avatar'', ''avatar''), (''website'', ''website''),
         (''twitter'', ''twitter''), (''userId'', ''userId'')]\<rparr>),
     (''post'', \<lparr>table = ''posts'', fieldMap =
        [(''id'', ''id''), (''title'', ''title''), (''content'', ''content''),
         (''published'', ''published''), (''views'', ''views''), (''authorId'', ''authorId''),
         (''categoryId'', ''categoryId''), (''createdAt'', ''createdAt''),
         (''updatedAt'', ''updatedAt'')]\<rparr>),
     (''category'', \<lparr>table = ''categories'', fieldMap =
        [(''id'', ''id''), (''name'', ''name''), (''description'', ''description''),
         (''color'', ''color'')]\<rparr>),
     (''tag'', \<lparr>table = ''tags'', fieldMap = [(''id'', ''id''), (''name'', ''name'')]\<rparr>),
     (''postTag'', \<lparr>table = ''post_tags'', fieldMap =
        [(''postId'', ''postId''), (''tagId'', ''tagId'')]\<rparr>),
     (''comment'', \<lparr>table = ''comments'', fieldMap =
        [(''id'', ''id''), (''content'', ''content''), (''authorId'', ''authorId''),
         (''postId'', ''postId''), (''parentId'', ''parentId''),
         (''createdAt'', ''createdAt'')]\<rparr>)]"

text \<open>
  \<^verbatim>\<open>SCHEMA_MAPPING[modelName]\<close>. Virtual models are created for the seven names above
  only, so a model's methods always find their entry.
\<close>

definition SCHEMA_MAPPING :: "string \<Rightarrow> model_schema option" where
  "SCHEMA_MAPPING modelName = map_of SCHEMA_MAPPING_entries modelName"

text \<open>
  \<^verbatim>\<open>schema.fields\<close> is an object literal, so \<^verbatim>\<open>schema.fields[key]\<close> with a key the payload
  chose also finds the members every object inherits from \<^verbatim>\<open>Object.prototype\<close>. They are
  functions (and, for \<^verbatim>\<open>__proto__\<close>, the prototype object): truthy, and rendered as below
  when interpolated into a template literal under Node.js.
\<close>

definition native_fn :: "string \<Rightarrow> string \<times> string" where
  "native_fn name = (name, ''function '' @ name @ ''() { [native code] }'')"

definition object_prototype :: "(string \<times> string) list" where
  "object_prototype =
    [(''constructor'', ''function Object() { [native code] }''),
     native_fn ''__defineGetter__'', native_fn ''__defineSetter__'',
     native_fn ''hasOwnProperty'', native_fn ''__lookupGetter__'',
     native_fn ''__lookupSetter__'', native_fn ''isPrototypeOf'',
     native_fn ''propertyIsEnumerable'', native_fn ''toString'', native_fn ''valueOf'',
     (''__proto__'', ''[object Object]''), native_fn ''toLocaleString'']"

text \<open>\<^verbatim>\<open>schema.fields[key]\<close>; \<open>None\<close> is \<^verbatim>\<open>undefined\<close>.\<close>

definition fields_get :: "model_schema \<Rightarrow> string \<Rightarrow> string option" where
  "fields_get schema key =
     (case map_of (fieldMap schema) key of
        Some v \<Rightarrow> Some v
      | None \<Rightarrow> map_of object_prototype key)"

text \<open>The truthiness of \<^verbatim>\<open>schema.fields[key]\<close>, the filter of the insert and update builders.\<close>

definition fields_truthy :: "model_schema \<Rightarrow> string \<Rightarrow> bool" where
  "fields_truthy schema key = (case fields_get schema key of Some v \<Rightarrow> v \<noteq> [] | None \<Rightarrow> False)"

text \<open>\<^verbatim>\<open>key in schema.fields\<close>.\<close>

definition fields_has :: "model_schema \<Rightarrow> string \<Rightarrow> bool" where
  "fields_has schema key = (fields_get schema key \<noteq> None)"

text \<open>\<^verbatim>\<open>`${schema.fields[key]}`\<close>: an absent member interpolates as \<^verbatim>\<open>undefined\<close>.\<close>

definition fields_render :: "model_schema \<Rightarrow> string \<Rightarrow> string" where
  "fields_render schema key = (case fields_get schema key of Some v \<Rightarrow> v | None \<Rightarrow> ''undefined'')"

text \<open>\<^verbatim>\<open>schema.fields[field] || field\<close>, the column of a where condition or order clause.\<close>

definition dbFieldOf :: "model_schema \<Rightarrow> string \<Rightarrow> string" where
  "dbFieldOf schema field =
     (if fields_truthy schema field then fields_render schema field else field)"

section \<open>Query builders\<close>

definition quote_ident :: "string \<Rightarrow> string" where
  "quote_ident s = [CHR 0x22] @ s @ [CHR 0x22]"

text \<open>
  The where loop shared by the four builders:
  \<^verbatim>\<open>Object.entries(args.where).map(([field, value]) => { ...; values.push(value); return `"${dbField}" = $${valueIndex++}` })\<close>.
  The accumulated \<^verbatim>\<open>values\<close> and the counter \<^verbatim>\<open>valueIndex\<close> are threaded through.
  Every caller runs it under \<^verbatim>\<open>if (args.where)\<close>, where \<^verbatim>\<open>Object.entries\<close> cannot
  throw and yields \<open>own_entries\<close>.
\<close>

fun whereConditions ::
  "model_schema \<Rightarrow> (string \<times> jsval) list \<Rightarrow> jsval list \<Rightarrow> nat \<Rightarrow> string list \<times> jsval list \<times> nat" where
  "whereConditions schema [] values valueIndex = ([], values, valueIndex)"
| "whereConditions schema ((field, value) # es) values valueIndex =
     (let dbField = dbFieldOf schema field;
          cond = quote_ident dbField @ '' = $'' @ show_nat valueIndex;
          (conds, values', valueIndex') = whereConditions schema es (values @ [value]) (valueIndex + 1)
      in (cond # conds, values', valueIndex'))"

text \<open>
  One order clause:
  \<^verbatim>\<open>const [[field, direction]] = Object.entries(order)\<close> throws when \<^verbatim>\<open>order\<close> has no entry.
\<close>

definition orderClause :: "model_schema \<Rightarrow> jsval \<Rightarrow> error + string" where
  "orderClause schema order =
     bind_err (object_entries order) (\<lambda>es.
       case es of
         [] \<Rightarrow> Inl TypeError
       | (field, direction) # _ \<Rightarrow>
           Inr (quote_ident (dbFieldOf schema field) @ '' '' @ toUpperCase (js_to_string direction)))"

text \<open>
  The body of \<^verbatim>\<open>buildSelectQuery\<close> once the schema is found: the where clause (left out
  when the condition list is empty), the order clauses, \<^verbatim>\<open>LIMIT\<close> and \<^verbatim>\<open>OFFSET\<close>, each
  under the truthiness test of its argument.
\<close>

definition select_body :: "model_schema \<Rightarrow> jsval \<Rightarrow> error + string \<times> jsval list" where
  "select_body schema args =
     (if nullish args then Inl TypeError
      else
        let query0 = ''SELECT * FROM '' @ quote_ident (table schema);
            wh = js_prop args ''where'';
            (query1, values) =
              (if truthy wh then
                 (let (whereConds, vs, _) = whereConditions schema (own_entries wh) [] 1
                  in (if length whereConds > 0
                      then query0 @ '' WHERE '' @ join '' AND '' whereConds else query0, vs))
               else (query0, []));
            ob = js_prop args ''orderBy''
        in bind_err
             (if truthy ob then
                bind_err (map_err (orderClause schema) (case ob of JArr os \<Rightarrow> os | _ \<Rightarrow> [ob]))
                  (\<lambda>orderClauses. Inr (query1 @ '' ORDER BY '' @ join '', '' orderClauses))
              else Inr query1)
             (\<lambda>query2.
                let tk = js_prop args ''take'';
                    query3 = (if truthy tk then query2 @ '' LIMIT '' @ js_to_string tk else query2);
                    sk = js_prop args ''skip'';
                    query4 = (if truthy sk then query3 @ '' OFFSET '' @ js_to_string sk else query3)
                in Inr (query4, values)))"

text \<open>\<^verbatim>\<open>buildSelectQuery(modelName, args = {})\<close>.\<close>

definition buildSelectQuery :: "string \<Rightarrow> jsval \<Rightarrow> error + string \<times> jsval list" where
  "buildSelectQuery modelName args =
     (case SCHEMA_MAPPING modelName of
        None \<Rightarrow> Inl (ModelNotFound modelName)
      | Some schema \<Rightarrow> select_body schema (if args = JUndefined then JObj [] else args))"

text \<open>
  Auto-populated timestamp: \<^verbatim>\<open>if ('createdAt' in schema.fields && !enhancedData.createdAt) enhancedData.createdAt = new Date()\<close>.
  The value of \<^verbatim>\<open>new Date()\<close> is supplied by the caller of the model.
\<close>

definition auto_timestamp ::
  "model_schema \<Rightarrow> string \<Rightarrow> jsval \<Rightarrow> (string \<times> jsval) list \<Rightarrow> (string \<times> jsval) list" where
  "auto_timestamp schema key now enhancedData =
     (if fields_has schema key \<and> \<not> truthy (obj_get enhancedData key)
      then obj_set enhancedData key now else enhancedData)"

text \<open>
  \<^verbatim>\<open>Object.keys(enhancedData).filter(key => schema.fields[key])\<close>, the keys that the insert
  and the update builder keep (\<^verbatim>\<open>fields\<close> in the one, \<^verbatim>\<open>setFields\<close> in the other).
\<close>

definition setFields :: "model_schema \<Rightarrow> (string \<times> jsval) list \<Rightarrow> string list" where
  "setFields schema enhancedData = filter (fields_truthy schema) (map fst enhancedData)"

definition newline :: string where
  "newline = [CHR 0x0A]"

text \<open>The body of \<^verbatim>\<open>buildInsertQuery\<close>; the statement is a template literal over four lines.\<close>

definition insert_body :: "model_schema \<Rightarrow> jsval \<Rightarrow> jsval \<Rightarrow> jsval \<Rightarrow> string \<times> jsval list" where
  "insert_body schema data now1 now2 =
     (let enhancedData =
            auto_timestamp schema ''updatedAt'' now2
              (auto_timestamp schema ''createdAt'' now1 (spread data));
          fields = setFields schema enhancedData;
          dbFields = map (\<lambda>field. quote_ident (fields_render schema field)) fields;
          placeholders = map (\<lambda>i. ''$'' @ show_nat (i + 1)) [0..<length fields];
          values = map (obj_get enhancedData) fields;
          query =
            newline @ ''      INSERT INTO '' @ quote_ident (table schema)
              @ '' ('' @ join '', '' dbFields @ '')''
            @ newline @ ''      VALUES ('' @ join '', '' placeholders @ '')''
            @ newline @ ''      RETURNING *''
            @ newline @ ''    ''
      in (query, values))"

text \<open>\<^verbatim>\<open>buildInsertQuery(modelName, data)\<close>; the two instants are those of the two \<^verbatim>\<open>new Date()\<close>.\<close>

definition buildInsertQuery ::
  "string \<Rightarrow> jsval \<Rightarrow> jsval \<Rightarrow> jsval \<Rightarrow> error + string \<times> jsval list" where
  "buildInsertQuery modelName data now1 now2 =
     (case SCHEMA_MAPPING modelName of
        None \<Rightarrow> Inl (ModelNotFound modelName)
      | Some schema \<Rightarrow> Inr (insert_body schema data now1 now2))"

text \<open>The assignments of an update: \<^verbatim>\<open>setFields.map((field, i) => `"${dbField}" = $${i + 1}`)\<close>.\<close>

definition setClauses :: "model_schema \<Rightarrow> string list \<Rightarrow> string list" where
  "setClauses schema fs =
     map (\<lambda>(field, i). quote_ident (fields_render schema field) @ '' = $'' @ show_nat (i + 1))
       (zip fs [0..<length fs])"

text \<open>
  The body of \<^verbatim>\<open>buildUpdateQuery\<close>: the where parameters follow the assignment parameters,
  and the where clause is appended whenever \<^verbatim>\<open>args.where\<close> is truthy.
\<close>

definition update_body :: "model_schema \<Rightarrow> jsval \<Rightarrow> jsval \<Rightarrow> error + string \<times> jsval list" where
  "update_body schema args now =
     (if nullish args then Inl TypeError
      else
        let enhancedData = auto_timestamp schema ''updatedAt'' now (spread (js_prop args ''data''));
            fs = setFields schema enhancedData;
            setValues = map (obj_get enhancedData) fs;
            query0 = ''UPDATE '' @ quote_ident (table schema) @ '' SET ''
                       @ join '', '' (setClauses schema fs);
            wh = js_prop args ''where'';
            (query1, values) =
              (if truthy wh then
                 (let (whereConds, vs, _) =
                        whereConditions schema (own_entries wh) setValues (length setValues + 1)
                  in (query0 @ '' WHERE '' @ join '' AND '' whereConds, vs))
               else (query0, setValues))
        in Inr (query1 @ '' RETURNING *'', values))"

text \<open>\<^verbatim>\<open>buildUpdateQuery(modelName, args)\<close>.\<close>

definition buildUpdateQuery :: "string \<Rightarrow> jsval \<Rightarrow> jsval \<Rightarrow> error + string \<times> jsval list" where
  "buildUpdateQuery modelName args now =
     (case SCHEMA_MAPPING modelName of
        None \<Rightarrow> Inl (ModelNotFound modelName)
      | Some schema \<Rightarrow> update_body schema args now)"

text \<open>
  The tail shared by \<^verbatim>\<open>buildDeleteQuery\<close> and \<^verbatim>\<open>count\<close>: the statement head followed by
  the where clause, appended whenever \<^verbatim>\<open>args.where\<close> is truthy (there is no test for an
  empty condition list here).
\<close>

definition filtered_body :: "string \<Rightarrow> model_schema \<Rightarrow> jsval \<Rightarrow> error + string \<times> jsval list" where
  "filtered_body head schema args =
     (if nullish args then Inl TypeError
      else
        let query0 = head @ quote_ident (table schema);
            wh = js_prop args ''where''
        in if truthy wh then
             (let (whereConds, vs, _) = whereConditions schema (own_entries wh) [] 1
              in Inr (query0 @ '' WHERE '' @ join '' AND '' whereConds, vs))
           else Inr (query0, []))"

text \<open>\<^verbatim>\<open>buildDeleteQuery(modelName, args)\<close>.\<close>

definition buildDeleteQuery :: "string \<Rightarrow> jsval \<Rightarrow> error + string \<times> jsval list" where
  "buildDeleteQuery modelName args =
     (case SCHEMA_MAPPING modelName of
        None \<Rightarrow> Inl (ModelNotFound modelName)
      | Some schema \<Rightarrow> filtered_body ''DELETE FROM '' schema args)"

text \<open>
  The statement \<^verbatim>\<open>count(args = {})\<close> builds inline. It reads \<^verbatim>\<open>schema.table\<close> without the
  existence test of the builders, which throws for a name outside the mapping.
\<close>

definition buildCountQuery :: "string \<Rightarrow> jsval \<Rightarrow> error + string \<times> jsval list" where
  "buildCountQuery modelName args =
     (case SCHEMA_MAPPING modelName of
        None \<Rightarrow> Inl TypeError
      | Some schema \<Rightarrow>
          filtered_body ''SELECT COUNT(*) as count FROM '' schema
            (if args = JUndefined then JObj [] else args))"

section \<open>The virtual model over a database connection\<close>

text \<open>
  \<^verbatim>\<open>client.query(query, values)\<close> is the PostgreSQL driver: it answers a statement with
  its rows and its affected-row count, or rejects, and changes the database. It is a
  parameter here. A session records every statement handed to the driver, in order.
\<close>

record qresult =
  rows :: "jsval list"
  rowCount :: "nat option"

type_synonym 'db client = "'db \<Rightarrow> string \<Rightarrow> jsval list \<Rightarrow> (error + qresult) \<times> 'db"

record 'db session =
  db :: 'db
  sent :: "(string \<times> jsval list) list"

definition client_query ::
  "'db client \<Rightarrow> string \<Rightarrow> jsval list \<Rightarrow> 'db session \<Rightarrow> (error + qresult) \<times> 'db session" where
  "client_query client query values s =
     (let (r, d) = client (db s) query values
      in (r, \<lparr>db = d, sent = sent s @ [(query, values)]\<rparr>))"

text \<open>\<^verbatim>\<open>result.rows[0] || null\<close>.\<close>

definition first_row_or_null :: "qresult \<Rightarrow> jsval" where
  "first_row_or_null result =
     (case rows result of [] \<Rightarrow> JNull | r # _ \<Rightarrow> if truthy r then r else JNull)"

text \<open>
  \<^verbatim>\<open>findUnique(args)\<close> and \<^verbatim>\<open>findFirst(args = {})\<close> have the same body: the select of
  \<^verbatim>\<open>{ ...args, take: 1 }\<close>.
\<close>

definition find_one ::
  "'db client \<Rightarrow> string \<Rightarrow> jsval \<Rightarrow> 'db session \<Rightarrow> (error + jsval) \<times> 'db session" where
  "find_one client modelName args s =
     (case buildSelectQuery modelName (JObj (obj_set (spread args) ''take'' (JNum 1))) of
        Inl e \<Rightarrow> (Inl e, s)
      | Inr (query, values) \<Rightarrow>
          (case client_query client query values s of
             (Inl e, s') \<Rightarrow> (Inl e, s')
           | (Inr result, s') \<Rightarrow> (Inr (first_row_or_null result), s')))"

definition findUnique ::
  "'db client \<Rightarrow> string \<Rightarrow> jsval \<Rightarrow> 'db session \<Rightarrow> (error + jsval) \<times> 'db session" where
  "findUnique client modelName args s = find_one client modelName args s"

definition findFirst ::
  "'db client \<Rightarrow> string \<Rightarrow> jsval \<Rightarrow> 'db session \<Rightarrow> (error + jsval) \<times> 'db session" where
  "findFirst client modelName args s =
     find_one client modelName (if args = JUndefined then JObj [] else args) s"



text \<open>
  \<^verbatim>\<open>delete(args)\<close>: look the record up, throw when there is none, otherwise run the delete
  statement and return the record that was looked up.
\<close>

definition delete ::
  "'db client \<Rightarrow> string \<Rightarrow> jsval \<Rightarrow> 'db session \<Rightarrow> (error + jsval) \<times> 'db session" where
  "delete client modelName args s =
     (if nullish args then (Inl TypeError, s)
      else
        case findUnique client modelName (JObj [(''where'', js_prop args ''where'')]) s of
          (Inl e, s1) \<Rightarrow> (Inl e, s1)
        | (Inr existing, s1) \<Rightarrow>
            if \<not> truthy existing then (Inl RecordNotFoundForDelete, s1)
            else
              (case buildDeleteQuery modelName args of
                 Inl e \<Rightarrow> (Inl e, s1)
               | Inr (query, values) \<Rightarrow>
                   (case client_query client query values s1 of
                      (Inl e, s2) \<Rightarrow> (Inl e, s2)
                    | (Inr _, s2) \<Rightarrow> (Inr existing, s2))))"

subsection \<open>Counting\<close>

definition is_space :: "char \<Rightarrow> bool" where
  "is_space c = (c \<in> set [CHR 0x09, CHR 0x0A, CHR 0x0B, CHR 0x0C, CHR 0x0D, CHR '' ''])"

definition digit_value :: "char \<Rightarrow> nat option" where
  "digit_value c =
     (let n = (of_char c :: nat) in
      if 48 \<le> n \<and> n \<le> 57 then Some (n - 48)
      else if 97 \<le> n \<and> n \<le> 102 then Some (n - 87)
      else if 65 \<le> n \<and> n \<le> 70 then Some (n - 55)
      else None)"

definition is_digit_in :: "nat \<Rightarrow> char \<Rightarrow> bool" where
  "is_digit_in base c = (case digit_value c of Some d \<Rightarrow> d < base | None \<Rightarrow> False)"

definition digits_value :: "nat \<Rightarrow> string \<Rightarrow> nat" where
  "digits_value base ds = foldl (\<lambda>acc c. acc * base + the (digit_value c)) 0 ds"

text \<open>
  \<^verbatim>\<open>parseInt(v)\<close> without a radix: leading white space, a sign, a \<^verbatim>\<open>0x\<close> prefix for base
  sixteen, then the longest run of digits; \<^verbatim>\<open>NaN\<close> when there is no digit.
\<close>

definition parseInt :: "jsval \<Rightarrow> jsval" where
  "parseInt v =
     (let s0 = dropWhile is_space (js_to_string v);
          (neg, s1) =
            (case s0 of
               [] \<Rightarrow> (False, [])
             | c # cs \<Rightarrow>
                 if c = CHR ''-'' then (True, cs)
                 else if c = CHR ''+'' then (False, cs) else (False, s0));
          (base, s2) =
            (if prefix ''0x'' s1 \<or> prefix ''0X'' s1 then (16, drop 2 s1) else (10, s1));
          ds = takeWhile (is_digit_in base) s2
      in if ds = [] then JNaN
         else JNum ((if neg then - 1 else 1) * int (digits_value base ds)))"

text \<open>\<^verbatim>\<open>count(args = {})\<close>: \<^verbatim>\<open>parseInt(result.rows[0].count)\<close>.\<close>

definition count ::
  "'db client \<Rightarrow> string \<Rightarrow> jsval \<Rightarrow> 'db session \<Rightarrow> (error + jsval) \<times> 'db session" where
  "count client modelName args s =
     (case buildCountQuery modelName args of
        Inl e \<Rightarrow> (Inl e, s)
      | Inr (query, values) \<Rightarrow>
          (case client_query client query values s of
             (Inl e, s') \<Rightarrow> (Inl e, s')
           | (Inr result, s') \<Rightarrow>
               (case rows result of
                  [] \<Rightarrow> (Inl TypeError, s')
                | r # _ \<Rightarrow>
                    if nullish r then (Inl TypeError, s')
                    else (Inr (parseInt (js_prop r ''count'')), s'))))"

text \<open>
  \<^verbatim>\<open>aggregate(args = {})\<close>:
  \<^verbatim>\<open>const count = await this.count(args.where ? { where: args.where } : {}); return { _count: { _all: count } }\<close>.
\<close>

definition aggregate ::
  "'db client \<Rightarrow> string \<Rightarrow> jsval \<Rightarrow> 'db session \<Rightarrow> (error + jsval) \<times> 'db session" where
  "aggregate client modelName args0 s =
     (let args = (if args0 = JUndefined then JObj [] else args0) in
      if nullish args then (Inl TypeError, s)
      else
        case count client modelName
               (if truthy (js_prop args ''where'')
                then JObj [(''where'', js_prop args ''where'')] else JObj []) s of
          (Inl e, s') \<Rightarrow> (Inl e, s')
        | (Inr n, s') \<Rightarrow> (Inr (JObj [(''_count'', JObj [(''_all'', n)])]), s'))"

section \<open>The query parser\<close>

text \<open>
  \<^verbatim>\<open>parseUserQuery(queryString)\<close> of the query endpoint. White space is the ASCII white
  space, both for \<^verbatim>\<open>trim\<close> and for \<^verbatim>\<open>\s\<close>; \<^verbatim>\<open>\w\<close> is a letter, a digit or an underscore.
\<close>

fun split_on :: "char \<Rightarrow> string \<Rightarrow> string list" where
  "split_on d [] = [[]]"
| "split_on d (c # cs) =
     (if c = d then [] # split_on d cs
      else (let r = split_on d cs in (c # hd r) # tl r))"

definition trim :: "string \<Rightarrow> string" where
  "trim s = rev (dropWhile is_space (rev (dropWhile is_space s)))"

definition ends_with :: "string \<Rightarrow> string \<Rightarrow> bool" where
  "ends_with p s = prefix (rev p) (rev s)"

fun includes_str :: "string \<Rightarrow> string \<Rightarrow> bool" where
  "includes_str pat [] = (pat = [])"
| "includes_str pat (c # cs) = (prefix pat (c # cs) \<or> includes_str pat cs)"

definition is_word :: "char \<Rightarrow> bool" where
  "is_word c =
     (let n = (of_char c :: nat) in
      (48 \<le> n \<and> n \<le> 57) \<or> (65 \<le> n \<and> n \<le> 90) \<or> (97 \<le> n \<and> n \<le> 122) \<or> n = 95)"

subsection \<open>The active binding\<close>

text \<open>The first match of \<^verbatim>\<open>/console\.log\((\w+)\)/\<close> in a line, its group.\<close>

fun match_console_log :: "string \<Rightarrow> string option" where
  "match_console_log [] = None"
| "match_console_log (c # cs) =
     (if prefix ''console.log('' (c # cs) then
        (let rest = drop 12 (c # cs);
             w = takeWhile is_word rest
         in if w \<noteq> [] \<and> prefix '')'' (dropWhile is_word rest) then Some w
            else match_console_log cs)
      else match_console_log cs)"

text \<open>What one line contributes to the first loop: the binding it logs, if it is not a comment.\<close>

definition line_log_var :: "string \<Rightarrow> string option" where
  "line_log_var line =
     (let trimmedLine = trim line in
      if \<not> prefix ''//'' trimmedLine \<and> includes_str ''console.log('' trimmedLine
           \<and> includes_str '')'' trimmedLine
      then match_console_log trimmedLine else None)"

text \<open>
  The first loop: \<^verbatim>\<open>for (const line of lines) { ... if (match) { currentVarName = match[1]; break } }\<close>.
  The empty string is the initial \<^verbatim>\<open>currentVarName\<close>.
\<close>

fun find_log_var :: "string list \<Rightarrow> string" where
  "find_log_var [] = []"
| "find_log_var (line # rest) =
     (case line_log_var line of Some v \<Rightarrow> v | None \<Rightarrow> find_log_var rest)"

text \<open>The first match of \<^verbatim>\<open>/const\s+(\w+)\s*=/\<close> in a line, its group.\<close>

fun match_const_decl :: "string \<Rightarrow> string option" where
  "match_const_decl [] = None"
| "match_const_decl (c # cs) =
     (if prefix ''const'' (c # cs) then
        (let r1 = drop 5 (c # cs);
             r2 = dropWhile is_space r1;
             w = takeWhile is_word r2
         in if takeWhile is_space r1 \<noteq> [] \<and> w \<noteq> []
               \<and> prefix ''='' (dropWhile is_space (dropWhile is_word r2))
            then Some w else match_const_decl cs)
      else match_const_decl cs)"

definition line_const_var :: "string \<Rightarrow> string option" where
  "line_const_var line =
     (let trimmedLine = trim line in
      if \<not> prefix ''//'' trimmedLine \<and> includes_str ''const '' trimmedLine
           \<and> includes_str ''await prisma'' trimmedLine
      then match_const_decl trimmedLine else None)"

fun find_const_var :: "string list \<Rightarrow> string" where
  "find_const_var [] = []"
| "find_const_var (line # rest) =
     (case line_const_var line of Some v \<Rightarrow> v | None \<Rightarrow> find_const_var rest)"

text \<open>\<^verbatim>\<open>currentVarName\<close> after both loops; the second runs only when the first found nothing.\<close>

definition active_var :: "string list \<Rightarrow> error + string" where
  "active_var lines =
     (let v1 = find_log_var lines;
          currentVarName = (if v1 = [] then find_const_var lines else v1)
      in if currentVarName = [] then Inl NoActiveQuery else Inr currentVarName)"

subsection \<open>The statement block\<close>

text \<open>\<^verbatim>\<open>const\s+VAR\s*=\s*await\s+prisma\<close> matched at the head of a string, then anywhere.\<close>

definition start_here :: "string \<Rightarrow> string \<Rightarrow> bool" where
  "start_here var s =
     (let r1 = drop 5 s;
          r2 = dropWhile is_space r1;
          r3 = dropWhile is_space (drop (length var) r2);
          r4 = dropWhile is_space (drop 1 r3);
          r5 = drop 5 r4
      in prefix ''const'' s \<and> takeWhile is_space r1 \<noteq> [] \<and> prefix var r2 \<and> prefix ''='' r3
         \<and> prefix ''await'' r4 \<and> takeWhile is_space r5 \<noteq> []
         \<and> prefix ''prisma'' (dropWhile is_space r5))"

fun test_start :: "string \<Rightarrow> string \<Rightarrow> bool" where
  "test_start var [] = start_here var []"
| "test_start var (c # cs) = (start_here var (c # cs) \<or> test_start var cs)"

record scan_state =
  braceLevel :: int
  parenLevel :: int
  inString :: bool
  stringChar :: string

text \<open>
  The string detection both scanning loops share: a quote that no backslash precedes
  opens a string, or closes the one its own kind opened. The previous character is the
  empty string at the start.
\<close>

definition quote_step :: "char \<Rightarrow> string \<Rightarrow> bool \<times> string \<Rightarrow> bool \<times> string" where
  "quote_step c prevChar q =
     (if (c = CHR 0x22 \<or> c = CHR 0x27 \<or> c = CHR 0x60) \<and> prevChar \<noteq> [CHR 0x5C] then
        (if \<not> fst q then (True, [c])
         else if [c] = snd q then (False, [])
         else q)
      else q)"

definition scan_char :: "char \<Rightarrow> string \<Rightarrow> scan_state \<Rightarrow> scan_state" where
  "scan_char c prevChar st =
     (let (ins, sc) = quote_step c prevChar (inString st, stringChar st);
          st1 = st\<lparr>inString := ins, stringChar := sc\<rparr>
      in if \<not> ins then
           (if c = CHR ''{'' then st1\<lparr>braceLevel := braceLevel st1 + 1\<rparr>
            else if c = CHR ''}'' then st1\<lparr>braceLevel := braceLevel st1 - 1\<rparr>
            else if c = CHR ''('' then st1\<lparr>parenLevel := parenLevel st1 + 1\<rparr>
            else if c = CHR '')'' then st1\<lparr>parenLevel := parenLevel st1 - 1\<rparr>
            else st1)
         else st1)"

fun scan_line :: "string \<Rightarrow> string \<Rightarrow> scan_state \<Rightarrow> scan_state" where
  "scan_line [] prevChar st = st"
| "scan_line (c # cs) prevChar st = scan_line cs [c] (scan_char c prevChar st)"

text \<open>
  The block loop: from the line that declares the binding, lines are collected until the
  levels are back to zero on a line that ends the call, or until more than a hundred
  lines are held.
\<close>

fun collect_block ::
  "string \<Rightarrow> string list \<Rightarrow> bool \<Rightarrow> scan_state \<Rightarrow> string list \<Rightarrow> string list" where
  "collect_block var [] foundStart st blockLines = blockLines"
| "collect_block var (line # rest) foundStart0 st0 blockLines0 =
     (let foundStart = (foundStart0 \<or> test_start var line) in
      if foundStart then
        (let blockLines = blockLines0 @ [line];
             st = scan_line line [] st0;
             lineContent = trim line
         in if braceLevel st = 0 \<and> parenLevel st \<le> 0
               \<and> (ends_with '')'' lineContent \<or> ends_with ''})'' lineContent
                    \<or> ends_with ''},'' lineContent)
            then blockLines
            else if length blockLines > 100 then blockLines
            else collect_block var rest foundStart st blockLines)
      else collect_block var rest foundStart st0 blockLines0)"

subsection \<open>Model, action and payload text\<close>

text \<open>
  \<^verbatim>\<open>/await\s+prisma\.(\w+)\.(\w+)\s*\(/\<close> at the head of a string: the length of the match
  and its two groups.
\<close>

definition method_here :: "string \<Rightarrow> (nat \<times> string \<times> string) option" where
  "method_here s =
     (let r1 = drop 5 s;
          r2 = dropWhile is_space r1;
          r3 = drop 7 r2;
          model = takeWhile is_word r3;
          r4 = dropWhile is_word r3;
          r5 = drop 1 r4;
          action = takeWhile is_word r5;
          r6 = dropWhile is_space (dropWhile is_word r5)
      in if prefix ''await'' s \<and> takeWhile is_space r1 \<noteq> [] \<and> prefix ''prisma.'' r2
            \<and> model \<noteq> [] \<and> prefix ''.'' r4 \<and> action \<noteq> [] \<and> prefix ''('' r6
         then Some (length s - length r6 + 1, model, action) else None)"

text \<open>The first match in the block: its index, its length and the groups.\<close>

fun find_method :: "nat \<Rightarrow> string \<Rightarrow> (nat \<times> nat \<times> string \<times> string) option" where
  "find_method i [] = None"
| "find_method i (c # cs) =
     (case method_here (c # cs) of
        Some (len, model, action) \<Rightarrow> Some (i, len, model, action)
      | None \<Rightarrow> find_method (i + 1) cs)"

text \<open>
  The parenthesis loop, from the opening parenthesis of the call: the index of the
  parenthesis that brings the counter back to zero outside a string.
\<close>

fun find_payload_end ::
  "string \<Rightarrow> nat \<Rightarrow> string \<Rightarrow> int \<Rightarrow> bool \<times> string \<Rightarrow> nat option" where
  "find_payload_end [] i prevChar parenCounter q = None"
| "find_payload_end (c # cs) i prevChar parenCounter q0 =
     (let q = quote_step c prevChar q0 in
      if \<not> fst q then
        (if c = CHR ''('' then find_payload_end cs (i + 1) [c] (parenCounter + 1) q
         else if c = CHR '')'' then
           (if parenCounter - 1 = 0 then Some i
            else find_payload_end cs (i + 1) [c] (parenCounter - 1) q)
         else find_payload_end cs (i + 1) [c] parenCounter q)
      else find_payload_end cs (i + 1) [c] parenCounter q)"

subsection \<open>The payload\<close>

text \<open>\<^verbatim>\<open>.replace(/,\s*$/, '')\<close>: the first comma that only white space follows, and what follows it.\<close>

fun strip_trailing_comma :: "string \<Rightarrow> string" where
  "strip_trailing_comma [] = []"
| "strip_trailing_comma (c # cs) =
     (if c = CHR '','' \<and> dropWhile is_space cs = [] then []
      else c # strip_trailing_comma cs)"

definition is_line_end :: "char \<Rightarrow> bool" where
  "is_line_end c = (c = CHR 0x0A \<or> c = CHR 0x0D)"

text \<open>\<^verbatim>\<open>.replace(/\/\/.*$/gm, '')\<close>: every \<^verbatim>\<open>//\<close> with the rest of its line.\<close>

fun strip_line_comments :: "bool \<Rightarrow> string \<Rightarrow> string" where
  "strip_line_comments skipping [] = []"
| "strip_line_comments skipping (c # cs) =
     (if is_line_end c then c # strip_line_comments False cs
      else if skipping then strip_line_comments True cs
      else if c = CHR ''/'' \<and> prefix ''/'' cs then strip_line_comments True cs
      else c # strip_line_comments False cs)"

text \<open>
  \<^verbatim>\<open>.replace(/\/\*[\s\S]*?\*\//g, '')\<close>: every \<^verbatim>\<open>/*\<close> up to the next \<^verbatim>\<open>*/\<close>; a \<^verbatim>\<open>/*\<close> that
  is never closed stays.
\<close>

fun strip_block_comments :: "bool \<Rightarrow> string \<Rightarrow> string" where
  "strip_block_comments inside [] = []"
| "strip_block_comments inside [c] = (if inside then [] else [c])"
| "strip_block_comments inside (c1 # c2 # cs) =
     (if inside then
        (if c1 = CHR ''*'' \<and> c2 = CHR ''/'' then strip_block_comments False cs
         else strip_block_comments True (c2 # cs))
      else if c1 = CHR ''/'' \<and> c2 = CHR ''*'' \<and> includes_str ''*/'' cs
        then strip_block_comments True cs
      else c1 # strip_block_comments False (c2 # cs))"

definition cleanPayload :: "string \<Rightarrow> string" where
  "cleanPayload payloadStr =
     trim (strip_block_comments False (strip_line_comments False (strip_trailing_comma payloadStr)))"

text \<open>The payload that replaces one whose evaluation threw.\<close>

definition fallback_payload :: "string \<Rightarrow> jsval" where
  "fallback_payload action =
     (if action = ''findMany'' \<or> action = ''findFirst'' \<or> action = ''count'' then JObj []
      else JObj [(''data'', JObj [(''name'', JStr ''Teste''), (''email'', JStr ''teste@exemplo.com'')])])"

text \<open>
  The payload of the call. \<^verbatim>\<open>eval\<close> is the evaluator of the JavaScript host, applied to
  the cleaned text between parentheses; it is a parameter, and an exception it throws is
  an \<open>Inl\<close>. Without payload text the payload stays \<^verbatim>\<open>undefined\<close>. The outer
  \<^verbatim>\<open>try\<close> of the source guards the three replacements and \<^verbatim>\<open>trim\<close>, which do not throw.
\<close>

definition evaluate_payload :: "(string \<Rightarrow> error + jsval) \<Rightarrow> string \<Rightarrow> string \<Rightarrow> jsval" where
  "evaluate_payload host_eval action payloadStr =
     (if payloadStr \<noteq> [] \<and> trim payloadStr \<noteq> [] then
        (case host_eval (''('' @ cleanPayload payloadStr @ '')'') of
           Inr evaluatedPayload \<Rightarrow> evaluatedPayload
         | Inl evalError \<Rightarrow> fallback_payload action)
      else JUndefined)"

text \<open>
  The whole parser: the active binding, its block, the first \<^verbatim>\<open>prisma.model.action(\<close> in the
  block, the text between that parenthesis and the one that closes it, and its payload.
\<close>

definition parseUserQuery ::
  "(string \<Rightarrow> error + jsval) \<Rightarrow> string \<Rightarrow> error + string \<times> string \<times> jsval" where
  "parseUserQuery host_eval queryString =
     (let lines = split_on (CHR 0x0A) queryString in
      case active_var lines of
        Inl e \<Rightarrow> Inl e
      | Inr currentVarName \<Rightarrow>
          (let blockLines =
                 collect_block currentVarName lines False
                   \<lparr>braceLevel = 0, parenLevel = 0, inString = False, stringChar = []\<rparr> []
           in if blockLines = [] then Inl (QueryNotFound currentVarName)
              else
                (let activeQueryBlock = join newline blockLines in
                 case find_method 0 activeQueryBlock of
                   None \<Rightarrow> Inl MethodNotFound
                 | Some (methodStartIndex, matchLength, model, action) \<Rightarrow>
                     (let payloadStartIndex = methodStartIndex + matchLength - 1;
                          prevChar = (if payloadStartIndex > 0
                                      then [activeQueryBlock ! (payloadStartIndex - 1)] else []);
                          payloadStr =
                            (case find_payload_end (drop payloadStartIndex activeQueryBlock)
                                    payloadStartIndex prevChar 0 (False, []) of
                               None \<Rightarrow> []
                             | Some payloadEndIndex \<Rightarrow>
                                 if payloadEndIndex > payloadStartIndex
                                 then trim (take (payloadEndIndex - (payloadStartIndex + 1))
                                              (drop (payloadStartIndex + 1) activeQueryBlock))
                                 else [])
                      in Inr (model, action, evaluate_payload host_eval action payloadStr)))))"

section \<open>Payload names and the database engine\<close>

text \<open>
  A value none of whose own keys is the name of a member inherited from
  \<^verbatim>\<open>Object.prototype\<close>: for such keys \<^verbatim>\<open>schema.fields[key]\<close> is decided by the field map alone.
\<close>

definition plain_keys :: "jsval \<Rightarrow> bool" where
  "plain_keys v = list_all (\<lambda>k. map_of object_prototype k = None) (map fst (own_entries v))"

text \<open>
  The statement texts the builders are compared with, written from the shape of the SQL
  and not from the code. A where condition or an order clause writes the column the
  field map gives for a name, and the name itself when the field map has none;
  conditions and assignments are \<^verbatim>\<open>"column" = $i\<close>, numbered upwards from a first index.
\<close>

definition written_column :: "model_schema \<Rightarrow> string \<Rightarrow> string" where
  "written_column schema k = (case map_of (fieldMap schema) k of Some c \<Rightarrow> c | None \<Rightarrow> k)"

definition column_equations :: "string list \<Rightarrow> nat \<Rightarrow> string list" where
  "column_equations cols n =
     map (\<lambda>(c, i). quote_ident c @ '' = $'' @ show_nat i) (zip cols [n..<n + length cols])"





section \<open>Sample environments\<close>

text \<open>The entry of \<^verbatim>\<open>user\<close> in the mapping.\<close>

definition user_schema :: model_schema where
  "user_schema = \<lparr>table = ''users'', fieldMap =
        [(''id'', ''id''), (''email'', ''email''), (''name'', ''name''), (''bio'', ''bio''),
         (''createdAt'', ''createdAt''), (''updatedAt'', ''updatedAt'')]\<rparr>"

text \<open>A driver that answers the statements it receives with a prepared list of results.\<close>

definition scripted_client :: "(error + qresult) list client" where
  "scripted_client script query values =
     (case script of
        [] \<Rightarrow> (Inl (HostError ''no result''), [])
      | r # rs \<Rightarrow> (r, rs))"

text \<open>A host evaluator given by a table of texts and their values; it throws on any other text.\<close>

definition eval_table :: "(string \<times> jsval) list \<Rightarrow> string \<Rightarrow> error + jsval" where
  "eval_table tab text =
     (case map_of tab text of Some v \<Rightarrow> Inr v | None \<Rightarrow> Inl (HostError ''SyntaxError''))"




section \<open>Properties of the object helpers\<close>

lemma map_of_overwrite:
  "k \<in> set (map fst kvs) \<Longrightarrow>
   map_of (map (\<lambda>(k', v'). if k' = k then (k', v) else (k', v')) kvs) k = Some v"
proof (induction kvs)
  case Nil
  then show ?case by simp
next
  case (Cons p kvs)
  obtain a b where p: "p = (a, b)" by (cases p)
  show ?case
  proof (cases "a = k")
    case True
    then show ?thesis by (simp add: p)
  next
    case False
    with Cons show ?thesis by (simp add: p)
  qed
qed

lemma obj_get_obj_set_same: "obj_get (obj_set kvs k v) k = v"
proof (cases "k \<in> set (map fst kvs)")
  case True
  with map_of_overwrite [OF True, of v] show ?thesis by (simp add: obj_get_def obj_set_def)
next
  case False
  then have "map_of kvs k = None" by (simp add: map_of_eq_None_iff)
  with False show ?thesis by (simp add: obj_get_def obj_set_def map_add_def)
qed

lemma map_of_overwrite_other:
  "k' \<noteq> k \<Longrightarrow>
   map_of (map (\<lambda>(a, b). if a = k then (a, v) else (a, b)) kvs) k' = map_of kvs k'"
proof (induction kvs)
  case Nil
  then show ?case by simp
next
  case (Cons p kvs)
  obtain a b where p: "p = (a, b)" by (cases p)
  from Cons show ?case by (simp add: p)
qed

lemma obj_get_obj_set_other: "k' \<noteq> k \<Longrightarrow> obj_get (obj_set kvs k v) k' = obj_get kvs k'"
proof -
  assume ne: "k' \<noteq> k"
  have a: "map_of (kvs @ [(k, v)]) k' = map_of kvs k'"
    using ne by (simp add: map_add_def split: option.splits)
  have b: "map_of (map (\<lambda>(a, b). if a = k then (a, v) else (a, b)) kvs) k' = map_of kvs k'"
    by (rule map_of_overwrite_other [OF ne])
  show ?thesis unfolding obj_get_def obj_set_def using a b by (simp del: map_of_append)
qed

lemma map_fst_overwrite:
  "map fst (map (\<lambda>(k', v'). if k' = k then (k', v) else (k', v')) kvs) = map fst kvs"
  by (induction kvs) auto

lemma obj_set_map_fst:
  "map fst (obj_set kvs k v) = (if k \<in> set (map fst kvs) then map fst kvs else map fst kvs @ [k])"
  unfolding obj_set_def using map_fst_overwrite [of k v kvs] by simp

lemma obj_set_keys: "k \<in> set (map fst (obj_set kvs k v))"
  unfolding obj_set_map_fst by simp

lemma map_overwrite_id:
  "k \<notin> set (map fst kvs) \<Longrightarrow> map (\<lambda>(k', v'). if k' = k then (k', v) else (k', v')) kvs = kvs"
  by (induction kvs) auto

lemma obj_set_present:
  "k \<in> set (map fst kvs) \<Longrightarrow>
   obj_set kvs k v = map (\<lambda>(k', v'). if k' = k then (k', v) else (k', v')) kvs"
  by (simp add: obj_set_def)

lemma obj_set_absent: "k \<notin> set (map fst kvs) \<Longrightarrow> obj_set kvs k v = kvs @ [(k, v)]"
  by (simp add: obj_set_def)

lemma overwrite_twice:
  "map (\<lambda>(k', v'). if k' = k then (k', v) else (k', v'))
     (map (\<lambda>(k', v'). if k' = k then (k', t) else (k', v')) kvs)
   = map (\<lambda>(k', v'). if k' = k then (k', v) else (k', v')) kvs"
  by (induction kvs) auto

lemma obj_set_twice: "obj_set (obj_set kvs k t) k v = obj_set kvs k v"
proof -
  have "obj_set (obj_set kvs k t) k v
      = map (\<lambda>(k', v'). if k' = k then (k', v) else (k', v')) (obj_set kvs k t)"
    by (rule obj_set_present [OF obj_set_keys])
  also have "\<dots> = obj_set kvs k v"
  proof (cases "k \<in> set (map fst kvs)")
    case True
    then show ?thesis by (simp only: obj_set_present overwrite_twice)
  next
    case False
    then show ?thesis by (simp add: obj_set_absent map_overwrite_id)
  qed
  finally show ?thesis .
qed

section \<open>Properties of the builders\<close>

text \<open>The where loop in closed form: one condition and one parameter per entry, numbered from the counter on.\<close>

lemma whereConditions_eq:
  "whereConditions schema es vs n =
     (map (\<lambda>(field, i). quote_ident (dbFieldOf schema field) @ '' = $'' @ show_nat i)
        (zip (map fst es) [n..<n + length es]),
      vs @ map snd es, n + length es)"
proof (induction es arbitrary: vs n)
  case Nil
  then show ?case by simp
next
  case (Cons e es)
  obtain field v where e: "e = (field, v)" by (cases e)
  have up: "[n..<n + length (e # es)] = n # [n + 1..<n + 1 + length es]"
    by (subst upt_conv_Cons) simp_all
  have ih: "whereConditions schema es (vs @ [v]) (n + 1) =
     (map (\<lambda>(field, i). quote_ident (dbFieldOf schema field) @ '' = $'' @ show_nat i)
        (zip (map fst es) [n + 1..<n + 1 + length es]),
      (vs @ [v]) @ map snd es, n + 1 + length es)"
    by (rule Cons.IH)
  show ?case
    unfolding up unfolding e whereConditions.simps ih by (simp add: Let_def)
qed

lemma select_body_where_only:
  "\<exists>q vs. select_body schema (JObj (obj_set [(''where'', w)] ''take'' (JNum 1))) = Inr (q, vs)"
  by (simp add: select_body_def nullish_def js_prop_def obj_get_def obj_set_def bind_err_def
      Let_def split: prod.splits)

lemma select_body_prefix:
  assumes "select_body schema a = Inr (q, vs)"
  shows "prefix ''SELECT * FROM '' q"
proof -
  have p: "\<And>x y. prefix ''SELECT * FROM '' (''SELECT * FROM '' @ x)"
    by (rule prefixI) simp
  from assms show ?thesis
    unfolding select_body_def Let_def
    by (auto simp: bind_err_def prefix_def split: if_splits sum.splits prod.splits)
qed

lemma filtered_body_prefix:
  assumes "filtered_body head schema a = Inr (q, vs)"
  shows "prefix head q"
  using assms unfolding filtered_body_def Let_def
  by (auto simp: prefix_def split: if_splits prod.splits)

lemma count_query_of_aggregate_args:
  assumes "SCHEMA_MAPPING m = Some schema" "\<not> nullish (if args = JUndefined then JObj [] else args)"
  shows "buildCountQuery m
           (if truthy (js_prop (if args = JUndefined then JObj [] else args) ''where'')
            then JObj [(''where'', js_prop (if args = JUndefined then JObj [] else args) ''where'')]
            else JObj [])
         = buildCountQuery m args"
proof -
  let ?a = "if args = JUndefined then JObj [] else args"
  let ?b = "if truthy (js_prop ?a ''where'') then JObj [(''where'', js_prop ?a ''where'')] else JObj []"
  have nb: "\<not> nullish ?b" "?b \<noteq> JUndefined" by (simp_all add: nullish_def)
  have w: "js_prop ?b ''where'' = js_prop ?a ''where'' \<or>
           (\<not> truthy (js_prop ?b ''where'') \<and> \<not> truthy (js_prop ?a ''where''))"
    by (simp add: js_prop_def obj_get_def)
  have "filtered_body ''SELECT COUNT(*) as count FROM '' schema ?b
        = filtered_body ''SELECT COUNT(*) as count FROM '' schema ?a"
    using w assms(2) nb(1) by (auto simp: filtered_body_def)
  moreover have "buildCountQuery m ?b = filtered_body ''SELECT COUNT(*) as count FROM '' schema ?b"
    using assms(1) nb(2) by (simp add: buildCountQuery_def)
  moreover have "buildCountQuery m args = filtered_body ''SELECT COUNT(*) as count FROM '' schema ?a"
    using assms(1) by (simp add: buildCountQuery_def)
  ultimately show ?thesis by simp
qed

subsection \<open>The characters of an update statement\<close>












subsection \<open>Closed forms of the compiled statements\<close>

lemma setClauses_eq:
  "setClauses schema fs =
     map (\<lambda>(field, i). quote_ident (fields_render schema field) @ '' = $'' @ show_nat i)
       (zip fs [1..<1 + length fs])"
proof -
  have "[1..<1 + length fs] = map Suc [0..<length fs]"
    by (simp add: map_Suc_upt)
  then show ?thesis
    by (simp add: setClauses_def zip_map2 case_prod_unfold)
qed

lemma update_body_eq:
  assumes "\<not> nullish args"
  shows "update_body schema args now =
     (let enhancedData = auto_timestamp schema ''updatedAt'' now (spread (js_prop args ''data''));
          fs = setFields schema enhancedData;
          wh = js_prop args ''where'';
          es = (if truthy wh then own_entries wh else [])
      in Inr (''UPDATE '' @ quote_ident (table schema) @ '' SET ''
                @ join '', ''
                    (map (\<lambda>(field, i). quote_ident (fields_render schema field) @ '' = $'' @ show_nat i)
                       (zip fs [1..<1 + length fs]))
                @ (if truthy wh then
                     '' WHERE '' @ join '' AND ''
                       (map (\<lambda>(field, i). quote_ident (dbFieldOf schema field) @ '' = $'' @ show_nat i)
                          (zip (map fst es) [length fs + 1..<length fs + 1 + length es]))
                   else [])
                @ '' RETURNING *'',
              map (obj_get enhancedData) fs @ map snd es))"
  using assms
  by (simp add: update_body_def Let_def whereConditions_eq setClauses_eq)

lemma select_body_where_part:
  assumes "select_body schema args = Inr (q, vs)"
  shows "let wh = js_prop args ''where'';
             es = (if truthy wh then own_entries wh else [])
         in vs = map snd es
          \<and> (\<exists>rest. q = ''SELECT * FROM '' @ quote_ident (table schema)
                @ (if es \<noteq> [] then
                     '' WHERE '' @ join '' AND ''
                       (map (\<lambda>(field, i). quote_ident (dbFieldOf schema field) @ '' = $'' @ show_nat i)
                          (zip (map fst es) [1..<1 + length es]))
                   else [])
                @ rest)"
proof -
  have nz: "(0 < length (xs :: (string \<times> jsval) list)) = (xs \<noteq> [])" for xs by simp
  from assms show ?thesis
    unfolding select_body_def Let_def whereConditions_eq
    by (auto simp: bind_err_def Suc_le_eq split: if_splits sum.splits)
qed

subsection \<open>The compiled select over every payload\<close>

lemma where_part_closed:
  "(if truthy wh then
      (let (whereConds, vs, _) = whereConditions schema (own_entries wh) [] 1
       in (if length whereConds > 0
           then query0 @ '' WHERE '' @ join '' AND '' whereConds else query0, vs))
    else (query0, []))
   = (let es = (if truthy wh then own_entries wh else [])
      in (query0 @ (if es \<noteq> [] then
                     '' WHERE '' @ join '' AND ''
                       (map (\<lambda>(field, i). quote_ident (dbFieldOf schema field) @ '' = $'' @ show_nat i)
                          (zip (map fst es) [1..<1 + length es]))
                   else []),
          map snd es))"
  unfolding whereConditions_eq Let_def by (simp add: Suc_le_eq)

lemma select_body_closed:
  assumes "\<not> nullish args"
  shows "select_body schema args =
     (let wh = js_prop args ''where'';
          es = (if truthy wh then own_entries wh else []);
          ob = js_prop args ''orderBy'';
          tk = js_prop args ''take'';
          sk = js_prop args ''skip''
      in case (if truthy ob
               then map_err (orderClause schema) (case ob of JArr os \<Rightarrow> os | _ \<Rightarrow> [ob])
               else Inr []) of
           Inl e \<Rightarrow> Inl e
         | Inr orderClauses \<Rightarrow>
             Inr (''SELECT * FROM '' @ quote_ident (table schema)
                    @ (if es \<noteq> [] then
                         '' WHERE '' @ join '' AND ''
                           (map (\<lambda>(field, i). quote_ident (dbFieldOf schema field) @ '' = $'' @ show_nat i)
                              (zip (map fst es) [1..<1 + length es]))
                       else [])
                    @ (if truthy ob then '' ORDER BY '' @ join '', '' orderClauses else [])
                    @ (if truthy tk then '' LIMIT '' @ js_to_string tk else [])
                    @ (if truthy sk then '' OFFSET '' @ js_to_string sk else []),
                  map snd es))"
proof -
  define W where
    "W = (let es = (if truthy (js_prop args ''where'') then own_entries (js_prop args ''where'') else [])
          in if es \<noteq> [] then
               '' WHERE '' @ join '' AND ''
                 (map (\<lambda>(field, i). quote_ident (dbFieldOf schema field) @ '' = $'' @ show_nat i)
                    (zip (map fst es) [1..<1 + length es]))
             else [])"
  define ocs where
    "ocs = map_err (orderClause schema)
             (case js_prop args ''orderBy'' of JArr os \<Rightarrow> os | _ \<Rightarrow> [js_prop args ''orderBy''])"
  have b: "select_body schema args =
     bind_err
       (if truthy (js_prop args ''orderBy'') then
          bind_err ocs
            (\<lambda>orderClauses. Inr ((''SELECT * FROM '' @ quote_ident (table schema) @ W)
                                   @ '' ORDER BY '' @ join '', '' orderClauses))
        else Inr (''SELECT * FROM '' @ quote_ident (table schema) @ W))
       (\<lambda>query2.
          Inr ((if truthy (js_prop args ''skip'')
                then (if truthy (js_prop args ''take'')
                      then query2 @ '' LIMIT '' @ js_to_string (js_prop args ''take'') else query2)
                       @ '' OFFSET '' @ js_to_string (js_prop args ''skip'')
                else (if truthy (js_prop args ''take'')
                      then query2 @ '' LIMIT '' @ js_to_string (js_prop args ''take'') else query2)),
               map snd (if truthy (js_prop args ''where'')
                        then own_entries (js_prop args ''where'') else [])))"
    using assms unfolding select_body_def where_part_closed
    by (simp only: Let_def prod.case W_def ocs_def if_False append_assoc)
  have g: "?thesis = (select_body schema args =
     (case (if truthy (js_prop args ''orderBy'') then ocs else Inr []) of
           Inl e \<Rightarrow> Inl e
         | Inr orderClauses \<Rightarrow>
             Inr (''SELECT * FROM '' @ quote_ident (table schema) @ W
                    @ (if truthy (js_prop args ''orderBy'')
                       then '' ORDER BY '' @ join '', '' orderClauses else [])
                    @ (if truthy (js_prop args ''take'')
                       then '' LIMIT '' @ js_to_string (js_prop args ''take'') else [])
                    @ (if truthy (js_prop args ''skip'')
                       then '' OFFSET '' @ js_to_string (js_prop args ''skip'') else []),
                  map snd (if truthy (js_prop args ''where'')
                           then own_entries (js_prop args ''where'') else []))))"
    by (simp only: Let_def W_def ocs_def)
  have "select_body schema args =
     (case (if truthy (js_prop args ''orderBy'') then ocs else Inr []) of
           Inl e \<Rightarrow> Inl e
         | Inr orderClauses \<Rightarrow>
             Inr (''SELECT * FROM '' @ quote_ident (table schema) @ W
                    @ (if truthy (js_prop args ''orderBy'')
                       then '' ORDER BY '' @ join '', '' orderClauses else [])
                    @ (if truthy (js_prop args ''take'')
                       then '' LIMIT '' @ js_to_string (js_prop args ''take'') else [])
                    @ (if truthy (js_prop args ''skip'')
                       then '' OFFSET '' @ js_to_string (js_prop args ''skip'') else []),
                  map snd (if truthy (js_prop args ''where'')
                           then own_entries (js_prop args ''where'') else [])))"
    unfolding b
    by (cases "truthy (js_prop args ''orderBy'')"; cases ocs;
        cases "truthy (js_prop args ''take'')"; cases "truthy (js_prop args ''skip'')")
       (simp_all only: bind_err_def sum.case if_True if_False append_assoc append_Nil2 append_Nil)
  with g show ?thesis by blast
qed

subsection \<open>Payloads with plain names\<close>

text \<open>
  For a name that no object inherits, \<^verbatim>\<open>schema.fields[name]\<close> is the entry of the field map,
  and no entry of \<^verbatim>\<open>SCHEMA_MAPPING\<close> maps a name to the empty string: the filter of the
  insert and update builders keeps the keys of the field map, and the column of a where
  condition or order clause is the field-map value or the name itself.
\<close>

lemma entries_values_nonempty:
  "(m, schema) \<in> set SCHEMA_MAPPING_entries \<Longrightarrow> \<forall>v \<in> snd ` set (fieldMap schema). v \<noteq> []"
  unfolding SCHEMA_MAPPING_entries_def by (simp, elim disjE conjE) simp_all

lemma mapping_values_nonempty:
  assumes "SCHEMA_MAPPING m = Some schema" and "map_of (fieldMap schema) k = Some c"
  shows "c \<noteq> []"
proof -
  from assms(1) have "(m, schema) \<in> set SCHEMA_MAPPING_entries"
    unfolding SCHEMA_MAPPING_def by (rule map_of_SomeD)
  from entries_values_nonempty [OF this]
  have v: "\<forall>v \<in> snd ` set (fieldMap schema). v \<noteq> []" .
  from assms(2) have "(k, c) \<in> set (fieldMap schema)" by (rule map_of_SomeD)
  then have "c \<in> snd ` set (fieldMap schema)" by force
  with v show ?thesis by blast
qed

lemma plain_fields_get:
  "map_of object_prototype k = None \<Longrightarrow> fields_get schema k = map_of (fieldMap schema) k"
  by (simp add: fields_get_def split: option.splits)

lemma plain_fields_truthy:
  assumes "SCHEMA_MAPPING m = Some schema" and "map_of object_prototype k = None"
  shows "fields_truthy schema k = (map_of (fieldMap schema) k \<noteq> None)"
proof (cases "map_of (fieldMap schema) k")
  case None
  with assms(2) show ?thesis by (simp add: fields_truthy_def plain_fields_get)
next
  case (Some c)
  from mapping_values_nonempty [OF assms(1) Some] Some assms(2)
  show ?thesis by (simp add: fields_truthy_def plain_fields_get)
qed

lemma plain_fields_render:
  assumes "map_of object_prototype k = None" and "map_of (fieldMap schema) k = Some c"
  shows "fields_render schema k = c"
  using assms by (simp add: fields_render_def plain_fields_get)

lemma plain_dbFieldOf:
  assumes "SCHEMA_MAPPING m = Some schema" and "map_of object_prototype k = None"
  shows "dbFieldOf schema k = written_column schema k"
proof (cases "map_of (fieldMap schema) k")
  case None
  with plain_fields_truthy [OF assms] show ?thesis
    by (simp add: dbFieldOf_def written_column_def)
next
  case (Some c)
  with plain_fields_truthy [OF assms] plain_fields_render [OF assms(2) Some] show ?thesis
    by (simp add: dbFieldOf_def written_column_def)
qed

lemma plain_kept:
  assumes "SCHEMA_MAPPING m = Some schema"
    and "list_all (\<lambda>k. map_of object_prototype k = None) ks"
  shows "filter (fields_truthy schema) ks = filter (\<lambda>k. map_of (fieldMap schema) k \<noteq> None) ks"
proof (rule filter_cong [OF refl])
  fix k assume "k \<in> set ks"
  with assms(2) have "map_of object_prototype k = None" by (simp add: list_all_iff)
  then show "fields_truthy schema k = (map_of (fieldMap schema) k \<noteq> None)"
    by (rule plain_fields_truthy [OF assms(1)])
qed

lemma plain_columns:
  assumes "SCHEMA_MAPPING m = Some schema"
    and "list_all (\<lambda>k. map_of object_prototype k = None) ks"
  shows "map (fields_render schema) (filter (fields_truthy schema) ks)
           = List.map_filter (map_of (fieldMap schema)) ks"
  using assms(2)
proof (induction ks)
  case Nil
  then show ?case by (simp add: List.map_filter_simps)
next
  case (Cons k ks)
  then have p: "map_of object_prototype k = None"
    and r: "list_all (\<lambda>k. map_of object_prototype k = None) ks" by simp_all
  show ?case
  proof (cases "map_of (fieldMap schema) k")
    case None
    with plain_fields_truthy [OF assms(1) p] Cons.IH [OF r] show ?thesis
      by (simp add: List.map_filter_simps)
  next
    case (Some c)
    with plain_fields_truthy [OF assms(1) p] plain_fields_render [OF p Some] Cons.IH [OF r]
    show ?thesis by (simp add: List.map_filter_simps)
  qed
qed

lemma timestamp_names_plain:
  "map_of object_prototype ''createdAt'' = None" "map_of object_prototype ''updatedAt'' = None"
  by (simp_all add: object_prototype_def native_fn_def)

lemma auto_timestamp_plain:
  assumes "list_all (\<lambda>k. map_of object_prototype k = None) (map fst e)"
    and "map_of object_prototype key = None"
  shows "list_all (\<lambda>k. map_of object_prototype k = None) (map fst (auto_timestamp schema key now e))"
  using assms by (simp add: auto_timestamp_def obj_set_map_fst)

lemma plain_conditions:
  assumes "SCHEMA_MAPPING m = Some schema"
    and "list_all (\<lambda>k. map_of object_prototype k = None) (map fst es)"
  shows "map (\<lambda>(field, i). quote_ident (dbFieldOf schema field) @ '' = $'' @ show_nat i)
           (zip (map fst es) [n..<n + length es])
       = column_equations (map (written_column schema \<circ> fst) es) n"
proof -
  have "map (\<lambda>(field, i). quote_ident (dbFieldOf schema field) @ '' = $'' @ show_nat i)
           (zip (map fst es) [n..<n + length es])
      = map (\<lambda>(field, i). quote_ident (written_column schema field) @ '' = $'' @ show_nat i)
           (zip (map fst es) [n..<n + length es])"
  proof (rule map_cong [OF refl])
    fix p assume mem: "p \<in> set (zip (map fst es) [n..<n + length es])"
    obtain f i where p: "p = (f, i)" by (cases p)
    from mem p have "f \<in> set (map fst es)" by (auto dest: set_zip_leftD)
    with assms(2) have "map_of object_prototype f = None" by (auto simp: list_all_iff)
    from plain_dbFieldOf [OF assms(1) this]
    show "(case p of (field, i) \<Rightarrow> quote_ident (dbFieldOf schema field) @ '' = $'' @ show_nat i)
        = (case p of (field, i) \<Rightarrow> quote_ident (written_column schema field) @ '' = $'' @ show_nat i)"
      by (simp add: p)
  qed
  also have "\<dots> = column_equations (map (written_column schema \<circ> fst) es) n"
    by (simp add: column_equations_def zip_map1 case_prod_unfold comp_def)
  finally show ?thesis .
qed

lemma plain_orderClause:
  assumes "SCHEMA_MAPPING m = Some schema" and "plain_keys ord"
  shows "orderClause schema ord =
           (if \<not> nullish ord \<and> own_entries ord \<noteq> [] then
              Inr (case own_entries ord of
                     [] \<Rightarrow> []
                   | (f, d) # _ \<Rightarrow>
                       quote_ident (written_column schema f) @ '' '' @ toUpperCase (js_to_string d))
            else Inl TypeError)"
proof (cases "own_entries ord")
  case Nil
  then show ?thesis by (simp add: orderClause_def object_entries_def bind_err_def)
next
  case (Cons p es)
  obtain f d where p: "p = (f, d)" by (cases p)
  from assms(2) Cons p have "map_of object_prototype f = None" by (simp add: plain_keys_def)
  from plain_dbFieldOf [OF assms(1) this] Cons p show ?thesis
    by (simp add: orderClause_def object_entries_def bind_err_def)
qed

lemma plain_orderClauses:
  assumes "SCHEMA_MAPPING m = Some schema" and "list_all plain_keys os"
  shows "map_err (orderClause schema) os =
           (if list_all (\<lambda>ord. \<not> nullish ord \<and> own_entries ord \<noteq> []) os then
              Inr (map (\<lambda>ord. case own_entries ord of
                                 [] \<Rightarrow> []
                               | (f, d) # _ \<Rightarrow>
                                   quote_ident (written_column schema f) @ '' ''
                                     @ toUpperCase (js_to_string d)) os)
            else Inl TypeError)"
  using assms(2)
proof (induction os)
  case Nil
  then show ?case by simp
next
  case (Cons ord os)
  then have p: "plain_keys ord" and r: "list_all plain_keys os" by simp_all
  show ?case
    unfolding map_err.simps plain_orderClause [OF assms(1) p] Cons.IH [OF r]
    by (simp add: bind_err_def)
qed

lemma plain_where_entries:
  assumes "plain_keys wh"
  shows "list_all (\<lambda>k. map_of object_prototype k = None)
           (map fst (if truthy wh then own_entries wh else []))"
  using assms by (simp add: plain_keys_def)

lemma column_equations_render:
  "map (\<lambda>(field, i). quote_ident (fields_render schema field) @ '' = $'' @ show_nat i)
       (zip fs [n..<n + length fs])
     = column_equations (map (fields_render schema) fs) n"
  by (simp add: column_equations_def zip_map1 case_prod_unfold)

lemma insert_plain:
  assumes m: "SCHEMA_MAPPING m = Some schema" and p: "plain_keys data"
  shows "buildInsertQuery m data now1 now2 =
           (let e = auto_timestamp schema ''updatedAt'' now2
                      (auto_timestamp schema ''createdAt'' now1 (spread data));
                kept = filter (\<lambda>k. map_of (fieldMap schema) k \<noteq> None) (map fst e);
                cols = List.map_filter (map_of (fieldMap schema)) (map fst e)
            in Inr (newline @ ''      INSERT INTO '' @ quote_ident (table schema)
                      @ '' ('' @ join '', '' (map quote_ident cols) @ '')''
                    @ newline @ ''      VALUES (''
                      @ join '', '' (map (\<lambda>i. ''$'' @ show_nat (i + 1)) [0..<length cols]) @ '')''
                    @ newline @ ''      RETURNING *''
                    @ newline @ ''    '',
                    map (obj_get e) kept))"
proof -
  define e where "e = auto_timestamp schema ''updatedAt'' now2
                      (auto_timestamp schema ''createdAt'' now1 (spread data))"
  define fs where "fs = setFields schema e"
  define cols where "cols = List.map_filter (map_of (fieldMap schema)) (map fst e)"
  have pe: "list_all (\<lambda>k. map_of object_prototype k = None) (map fst e)"
    unfolding e_def using p
    by (intro auto_timestamp_plain timestamp_names_plain) (simp add: plain_keys_def spread_def)
  have k: "fs = filter (\<lambda>k. map_of (fieldMap schema) k \<noteq> None) (map fst e)"
    unfolding fs_def setFields_def by (rule plain_kept [OF m pe])
  have c: "map (fields_render schema) fs = cols"
    unfolding fs_def setFields_def cols_def by (rule plain_columns [OF m pe])
  have l: "length fs = length cols" using c by (metis length_map)
  have q: "map (\<lambda>field. quote_ident (fields_render schema field)) fs = map quote_ident cols"
    using arg_cong [OF c, of "map quote_ident"] by (simp add: comp_def)
  have vk: "map (obj_get e) fs
              = map (obj_get e) (filter (\<lambda>k. map_of (fieldMap schema) k \<noteq> None) (map fst e))"
    by (simp only: k)
  have b: "buildInsertQuery m data now1 now2 = Inr (insert_body schema data now1 now2)"
    using m by (simp add: buildInsertQuery_def)
  have "insert_body schema data now1 now2 =
          (newline @ ''      INSERT INTO '' @ quote_ident (table schema)
              @ '' ('' @ join '', '' (map (\<lambda>field. quote_ident (fields_render schema field)) fs) @ '')''
            @ newline @ ''      VALUES (''
              @ join '', '' (map (\<lambda>i. ''$'' @ show_nat (i + 1)) [0..<length fs]) @ '')''
            @ newline @ ''      RETURNING *''
            @ newline @ ''    '',
           map (obj_get e) fs)"
    by (simp only: insert_body_def Let_def e_def fs_def)
  then have "buildInsertQuery m data now1 now2 =
          Inr (newline @ ''      INSERT INTO '' @ quote_ident (table schema)
              @ '' ('' @ join '', '' (map quote_ident cols) @ '')''
            @ newline @ ''      VALUES (''
              @ join '', '' (map (\<lambda>i. ''$'' @ show_nat (i + 1)) [0..<length cols]) @ '')''
            @ newline @ ''      RETURNING *''
            @ newline @ ''    '',
           map (obj_get e) (filter (\<lambda>k. map_of (fieldMap schema) k \<noteq> None) (map fst e)))"
    unfolding b q l vk by (simp only:)
  then show ?thesis
    by (simp only: Let_def e_def cols_def)
qed

lemma update_plain:
  assumes m: "SCHEMA_MAPPING m = Some schema" and a: "\<not> nullish args"
    and pd: "plain_keys (js_prop args ''data'')" and pw: "plain_keys (js_prop args ''where'')"
  shows "buildUpdateQuery m args now =
           (let e = auto_timestamp schema ''updatedAt'' now (spread (js_prop args ''data''));
                kept = filter (\<lambda>k. map_of (fieldMap schema) k \<noteq> None) (map fst e);
                cols = List.map_filter (map_of (fieldMap schema)) (map fst e);
                wh = js_prop args ''where'';
                es = (if truthy wh then own_entries wh else [])
            in Inr (''UPDATE '' @ quote_ident (table schema) @ '' SET ''
                      @ join '', '' (column_equations cols 1)
                      @ (if truthy wh then
                           '' WHERE '' @ join '' AND ''
                             (column_equations (map (written_column schema \<circ> fst) es)
                                (length cols + 1))
                         else [])
                      @ '' RETURNING *'',
                    map (obj_get e) kept @ map snd es))"
proof -
  define e where "e = auto_timestamp schema ''updatedAt'' now (spread (js_prop args ''data''))"
  define fs where "fs = setFields schema e"
  define cols where "cols = List.map_filter (map_of (fieldMap schema)) (map fst e)"
  define es where "es = (if truthy (js_prop args ''where'')
                         then own_entries (js_prop args ''where'') else [])"
  have pe: "list_all (\<lambda>k. map_of object_prototype k = None) (map fst e)"
    unfolding e_def using pd
    by (intro auto_timestamp_plain timestamp_names_plain) (simp add: plain_keys_def spread_def)
  have k: "fs = filter (\<lambda>k. map_of (fieldMap schema) k \<noteq> None) (map fst e)"
    unfolding fs_def setFields_def by (rule plain_kept [OF m pe])
  have c: "map (fields_render schema) fs = cols"
    unfolding fs_def setFields_def cols_def by (rule plain_columns [OF m pe])
  have l: "length fs = length cols" using c by (metis length_map)
  have pes: "list_all (\<lambda>k. map_of object_prototype k = None) (map fst es)"
    unfolding es_def by (rule plain_where_entries [OF pw])
  have s1: "map (\<lambda>(field, i). quote_ident (fields_render schema field) @ '' = $'' @ show_nat i)
              (zip fs [1..<1 + length fs]) = column_equations cols 1"
    by (simp only: column_equations_render c)
  have s2: "map (\<lambda>(field, i). quote_ident (dbFieldOf schema field) @ '' = $'' @ show_nat i)
              (zip (map fst es) [length fs + 1..<length fs + 1 + length es])
          = column_equations (map (written_column schema \<circ> fst) es) (length cols + 1)"
    by (simp only: plain_conditions [OF m pes] l)
  have vk: "map (obj_get e) fs
              = map (obj_get e) (filter (\<lambda>k. map_of (fieldMap schema) k \<noteq> None) (map fst e))"
    by (simp only: k)
  have b: "buildUpdateQuery m args now = update_body schema args now"
    using m by (simp add: buildUpdateQuery_def)
  have "update_body schema args now =
     Inr (''UPDATE '' @ quote_ident (table schema) @ '' SET ''
                @ join '', ''
                    (map (\<lambda>(field, i). quote_ident (fields_render schema field) @ '' = $'' @ show_nat i)
                       (zip fs [1..<1 + length fs]))
                @ (if truthy (js_prop args ''where'') then
                     '' WHERE '' @ join '' AND ''
                       (map (\<lambda>(field, i). quote_ident (dbFieldOf schema field) @ '' = $'' @ show_nat i)
                          (zip (map fst es) [length fs + 1..<length fs + 1 + length es]))
                   else [])
                @ '' RETURNING *'',
              map (obj_get e) fs @ map snd es)"
    unfolding update_body_eq [OF a] by (simp only: Let_def e_def fs_def es_def)
  then have "buildUpdateQuery m args now =
     Inr (''UPDATE '' @ quote_ident (table schema) @ '' SET ''
                @ join '', '' (column_equations cols 1)
                @ (if truthy (js_prop args ''where'') then
                     '' WHERE '' @ join '' AND ''
                       (column_equations (map (written_column schema \<circ> fst) es) (length cols + 1))
                   else [])
                @ '' RETURNING *'',
              map (obj_get e) (filter (\<lambda>k. map_of (fieldMap schema) k \<noteq> None) (map fst e))
                @ map snd es)"
    unfolding b s1 s2 vk by (simp only:)
  then show ?thesis
    by (simp only: Let_def e_def cols_def es_def)
qed

lemma filtered_plain:
  assumes m: "SCHEMA_MAPPING m = Some schema" and a: "\<not> nullish args"
    and pw: "plain_keys (js_prop args ''where'')"
  shows "filtered_body head schema args =
           (let wh = js_prop args ''where'';
                es = (if truthy wh then own_entries wh else [])
            in Inr (head @ quote_ident (table schema)
                      @ (if truthy wh then
                           '' WHERE '' @ join '' AND ''
                             (column_equations (map (written_column schema \<circ> fst) es) 1)
                         else []),
                    map snd es))"
proof -
  define es where "es = (if truthy (js_prop args ''where'')
                         then own_entries (js_prop args ''where'') else [])"
  have pes: "list_all (\<lambda>k. map_of object_prototype k = None) (map fst es)"
    unfolding es_def by (rule plain_where_entries [OF pw])
  have "filtered_body head schema args =
          Inr (head @ quote_ident (table schema)
                 @ (if truthy (js_prop args ''where'') then
                      '' WHERE '' @ join '' AND ''
                        (map (\<lambda>(field, i). quote_ident (dbFieldOf schema field) @ '' = $'' @ show_nat i)
                           (zip (map fst es) [1..<1 + length es]))
                    else []),
               map snd es)"
    using a unfolding filtered_body_def Let_def whereConditions_eq es_def by simp
  then show ?thesis
    unfolding plain_conditions [OF m pes] by (simp only: Let_def es_def)
qed

lemma select_plain:
  assumes m: "SCHEMA_MAPPING m = Some schema" and a: "\<not> nullish args"
    and pw: "plain_keys (js_prop args ''where'')"
    and po: "list_all plain_keys
               (case js_prop args ''orderBy'' of JArr os \<Rightarrow> os | _ \<Rightarrow> [js_prop args ''orderBy''])"
  shows "buildSelectQuery m args =
     (let wh = js_prop args ''where'';
          es = (if truthy wh then own_entries wh else []);
          ob = js_prop args ''orderBy'';
          orders = (if truthy ob then (case ob of JArr os \<Rightarrow> os | _ \<Rightarrow> [ob]) else []);
          tk = js_prop args ''take'';
          sk = js_prop args ''skip''
      in if list_all (\<lambda>ord. \<not> nullish ord \<and> own_entries ord \<noteq> []) orders then
           Inr (''SELECT * FROM '' @ quote_ident (table schema)
                  @ (if es \<noteq> [] then
                       '' WHERE '' @ join '' AND ''
                         (column_equations (map (written_column schema \<circ> fst) es) 1)
                     else [])
                  @ (if truthy ob then
                       '' ORDER BY '' @ join '', ''
                         (map (\<lambda>ord. case own_entries ord of
                                        [] \<Rightarrow> []
                                      | (f, d) # _ \<Rightarrow>
                                          quote_ident (written_column schema f) @ '' ''
                                            @ toUpperCase (js_to_string d)) orders)
                     else [])
                  @ (if truthy tk then '' LIMIT '' @ js_to_string tk else [])
                  @ (if truthy sk then '' OFFSET '' @ js_to_string sk else []),
                map snd es)
         else Inl TypeError)"
proof -
  define ob where "ob = js_prop args ''orderBy''"
  define ords where "ords = (case ob of JArr os \<Rightarrow> os | _ \<Rightarrow> [ob])"
  define es where "es = (if truthy (js_prop args ''where'')
                         then own_entries (js_prop args ''where'') else [])"
  define ot where
    "ot = (\<lambda>ord. case own_entries ord of
                   [] \<Rightarrow> []
                 | (f, d) # _ \<Rightarrow>
                     quote_ident (written_column schema f) @ '' '' @ toUpperCase (js_to_string d))"
  define F where
    "F = (\<lambda>orderClauses.
           ''SELECT * FROM '' @ quote_ident (table schema)
             @ (if es \<noteq> [] then
                  '' WHERE '' @ join '' AND ''
                    (column_equations (map (written_column schema \<circ> fst) es) 1)
                else [])
             @ (if truthy ob then '' ORDER BY '' @ join '', '' orderClauses else [])
             @ (if truthy (js_prop args ''take'')
                then '' LIMIT '' @ js_to_string (js_prop args ''take'') else [])
             @ (if truthy (js_prop args ''skip'')
                then '' OFFSET '' @ js_to_string (js_prop args ''skip'') else []))"
  have pes: "list_all (\<lambda>k. map_of object_prototype k = None) (map fst es)"
    unfolding es_def by (rule plain_where_entries [OF pw])
  have po': "list_all plain_keys ords"
    using po by (simp only: ords_def ob_def)
  have b: "buildSelectQuery m args = select_body schema args"
    using m a by (auto simp: buildSelectQuery_def nullish_def)
  have sc: "select_body schema args =
              (case (if truthy ob then map_err (orderClause schema) ords else Inr []) of
                 Inl e \<Rightarrow> Inl e
               | Inr orderClauses \<Rightarrow> Inr (F orderClauses, map snd es))"
    unfolding select_body_closed [OF a] Let_def
    unfolding es_def [symmetric] plain_conditions [OF m pes]
    by (simp only: F_def ob_def ords_def)
  have g: "?thesis = (buildSelectQuery m args =
             (if list_all (\<lambda>ord. \<not> nullish ord \<and> own_entries ord \<noteq> [])
                   (if truthy ob then ords else [])
              then Inr (F (map ot (if truthy ob then ords else [])), map snd es)
              else Inl TypeError))"
    by (simp only: Let_def F_def ob_def ords_def es_def ot_def)
  have o: "map_err (orderClause schema) ords =
             (if list_all (\<lambda>ord. \<not> nullish ord \<and> own_entries ord \<noteq> []) ords
              then Inr (map ot ords) else Inl TypeError)"
    unfolding ot_def by (rule plain_orderClauses [OF m po'])
  have n: "F [] = F (map ot [])" by simp
  have "buildSelectQuery m args =
             (if list_all (\<lambda>ord. \<not> nullish ord \<and> own_entries ord \<noteq> [])
                   (if truthy ob then ords else [])
              then Inr (F (map ot (if truthy ob then ords else [])), map snd es)
              else Inl TypeError)"
  proof (cases "truthy ob")
    case True
    then show ?thesis unfolding b sc o by simp
  next
    case False
    then show ?thesis unfolding b sc by simp
  qed
  with g show ?thesis by blast
qed

subsection \<open>Double quotes in a statement\<close>






section \<open>Properties of the virtual model\<close>

lemma findUnique_eq_findFirst: "findUnique client m args s = findFirst client m args s"
proof (cases "args = JUndefined")
  case True
  then show ?thesis by (simp add: findUnique_def findFirst_def find_one_def spread_def)
next
  case False
  then show ?thesis by (simp add: findUnique_def findFirst_def)
qed

lemma find_one_ignores_take:
  "find_one client m (JObj (obj_set kvs ''take'' t)) s = find_one client m (JObj kvs) s"
  by (simp add: find_one_def spread_def obj_set_twice)

lemma find_one_no_rows:
  assumes "buildSelectQuery m (JObj (obj_set (spread args) ''take'' (JNum 1))) = Inr (q, vs)"
    and "client (db s) q vs = (Inr res, d)"
    and "rows res = []"
  shows "find_one client m args s = (Inr JNull, \<lparr>db = d, sent = sent s @ [(q, vs)]\<rparr>)"
  using assms by (simp add: find_one_def client_query_def first_row_or_null_def)

lemma find_one_closed:
  assumes "SCHEMA_MAPPING m = Some schema"
  shows "find_one client m args s =
     (let a = spread args;
          wh = obj_get a ''where'';
          es = (if truthy wh then own_entries wh else []);
          ob = obj_get a ''orderBy'';
          sk = obj_get a ''skip''
      in case (if truthy ob
               then map_err (orderClause schema) (case ob of JArr os \<Rightarrow> os | _ \<Rightarrow> [ob])
               else Inr []) of
           Inl e \<Rightarrow> (Inl e, s)
         | Inr orderClauses \<Rightarrow>
             (let q = ''SELECT * FROM '' @ quote_ident (table schema)
                    @ (if es \<noteq> [] then
                         '' WHERE '' @ join '' AND ''
                           (map (\<lambda>(field, i). quote_ident (dbFieldOf schema field) @ '' = $'' @ show_nat i)
                              (zip (map fst es) [1..<1 + length es]))
                       else [])
                    @ (if truthy ob then '' ORDER BY '' @ join '', '' orderClauses else [])
                    @ '' LIMIT 1''
                    @ (if truthy sk then '' OFFSET '' @ js_to_string sk else []);
                  vs = map snd es
              in case client (db s) q vs of
                   (Inl e, d) \<Rightarrow> (Inl e, \<lparr>db = d, sent = sent s @ [(q, vs)]\<rparr>)
                 | (Inr res, d) \<Rightarrow>
                     (Inr (first_row_or_null res), \<lparr>db = d, sent = sent s @ [(q, vs)]\<rparr>)))"
proof -
  let ?a = "JObj (obj_set (spread args) ''take'' (JNum 1))"
  have n: "\<not> nullish ?a" by (simp add: nullish_def)
  have tk: "js_prop ?a ''take'' = JNum 1" by (simp add: js_prop_def obj_get_obj_set_same)
  have wh: "js_prop ?a ''where'' = obj_get (spread args) ''where''"
    by (simp add: js_prop_def obj_get_obj_set_other)
  have ob: "js_prop ?a ''orderBy'' = obj_get (spread args) ''orderBy''"
    by (simp add: js_prop_def obj_get_obj_set_other)
  have sk: "js_prop ?a ''skip'' = obj_get (spread args) ''skip''"
    by (simp add: js_prop_def obj_get_obj_set_other)
  have one: "js_to_string (JNum 1) = ''1''" by code_simp
  have t1: "truthy (JNum 1) = True" by simp
  have b: "buildSelectQuery m ?a = select_body schema ?a"
    using assms by (simp add: buildSelectQuery_def)
  have lim: "'' LIMIT '' @ js_to_string (JNum 1) = '' LIMIT 1''" by code_simp
  define ocs where
    "ocs = (if truthy (obj_get (spread args) ''orderBy'')
            then map_err (orderClause schema)
                   (case obj_get (spread args) ''orderBy'' of JArr os \<Rightarrow> os
                    | _ \<Rightarrow> [obj_get (spread args) ''orderBy''])
            else Inr [])"
  define vs where
    "vs = map snd (if truthy (obj_get (spread args) ''where'')
                   then own_entries (obj_get (spread args) ''where'') else [])"
  define Q where
    "Q = (\<lambda>orderClauses.
            ''SELECT * FROM '' @ quote_ident (table schema)
              @ (if (if truthy (obj_get (spread args) ''where'')
                     then own_entries (obj_get (spread args) ''where'') else []) \<noteq> [] then
                   '' WHERE '' @ join '' AND ''
                     (map (\<lambda>(field, i). quote_ident (dbFieldOf schema field) @ '' = $'' @ show_nat i)
                        (zip (map fst (if truthy (obj_get (spread args) ''where'')
                                       then own_entries (obj_get (spread args) ''where'') else []))
                           [1..<1 + length (if truthy (obj_get (spread args) ''where'')
                                            then own_entries (obj_get (spread args) ''where'')
                                            else [])]))
                 else [])
              @ (if truthy (obj_get (spread args) ''orderBy'')
                 then '' ORDER BY '' @ join '', '' orderClauses else [])
              @ '' LIMIT 1''
              @ (if truthy (obj_get (spread args) ''skip'')
                 then '' OFFSET '' @ js_to_string (obj_get (spread args) ''skip'') else []))"
  have sb: "select_body schema ?a
              = (case ocs of Inl e \<Rightarrow> Inl e | Inr orderClauses \<Rightarrow> Inr (Q orderClauses, vs))"
    unfolding select_body_closed [OF n] tk wh ob sk Let_def t1 if_True lim
    by (simp only: ocs_def vs_def Q_def)
  have g: "?thesis = (find_one client m args s =
             (case ocs of
                Inl e \<Rightarrow> (Inl e, s)
              | Inr orderClauses \<Rightarrow>
                  (case client (db s) (Q orderClauses) vs of
                     (Inl e, d) \<Rightarrow> (Inl e, \<lparr>db = d, sent = sent s @ [(Q orderClauses, vs)]\<rparr>)
                   | (Inr res, d) \<Rightarrow>
                       (Inr (first_row_or_null res),
                        \<lparr>db = d, sent = sent s @ [(Q orderClauses, vs)]\<rparr>))))"
    by (simp only: Let_def ocs_def vs_def Q_def)
  have "find_one client m args s =
             (case ocs of
                Inl e \<Rightarrow> (Inl e, s)
              | Inr orderClauses \<Rightarrow>
                  (case client (db s) (Q orderClauses) vs of
                     (Inl e, d) \<Rightarrow> (Inl e, \<lparr>db = d, sent = sent s @ [(Q orderClauses, vs)]\<rparr>)
                   | (Inr res, d) \<Rightarrow>
                       (Inr (first_row_or_null res),
                        \<lparr>db = d, sent = sent s @ [(Q orderClauses, vs)]\<rparr>)))"
    unfolding find_one_def b sb client_query_def
    by (cases ocs) (simp_all split: prod.splits sum.splits)
  with g show ?thesis by blast
qed


subsection \<open>The whole-table engine\<close>









section \<open>Properties of the parser\<close>

lemma match_console_log_nonempty: "match_console_log s = Some v \<Longrightarrow> v \<noteq> []"
  by (induction s) (auto simp: Let_def split: if_splits)

lemma line_log_var_nonempty: "line_log_var l = Some v \<Longrightarrow> v \<noteq> []"
  by (auto simp: line_log_var_def Let_def split: if_splits dest: match_console_log_nonempty)

lemma find_log_var_first:
  assumes "\<forall>l \<in> set pre. line_log_var l = None" and "line_log_var l0 = Some v"
  shows "find_log_var (pre @ l0 # post) = v"
  using assms by (induction pre) simp_all

section \<open>Sample facts\<close>

lemma user_entry: "SCHEMA_MAPPING ''user'' = Some user_schema"
  by (simp add: SCHEMA_MAPPING_def SCHEMA_MAPPING_entries_def user_schema_def)

section \<open>The claims\<close>

text \<open>
  C1. Every compiled statement names the table of the schema. For a payload whose field
  names are not names of members that every object inherits, the columns are these. An
  insert column list and an update set clause hold, in payload order, the field-map
  values of those data keys that are keys of the field map, the auto-added timestamps
  among them; every other data key is dropped together with its value. A where condition
  and an order clause, in a select, update, delete or count, write the field-map value of
  a key of the field map, and write any other key itself, verbatim, as the column: such a
  key is not dropped.
\<close>

theorem compiled_identifiers:
  assumes m: "SCHEMA_MAPPING m = Some schema"
    and a: "\<not> nullish args"
    and pi: "plain_keys data"
    and pd: "plain_keys (js_prop args ''data'')"
    and pw: "plain_keys (js_prop args ''where'')"
    and po: "list_all plain_keys
               (case js_prop args ''orderBy'' of JArr os \<Rightarrow> os | _ \<Rightarrow> [js_prop args ''orderBy''])"
  shows "buildInsertQuery m data now1 now2 =
           (let e = auto_timestamp schema ''updatedAt'' now2
                      (auto_timestamp schema ''createdAt'' now1 (spread data));
                kept = filter (\<lambda>k. map_of (fieldMap schema) k \<noteq> None) (map fst e);
                cols = List.map_filter (map_of (fieldMap schema)) (map fst e)
            in Inr (newline @ ''      INSERT INTO '' @ quote_ident (table schema)
                      @ '' ('' @ join '', '' (map quote_ident cols) @ '')''
                    @ newline @ ''      VALUES (''
                      @ join '', '' (map (\<lambda>i. ''$'' @ show_nat (i + 1)) [0..<length cols]) @ '')''
                    @ newline @ ''      RETURNING *''
                    @ newline @ ''    '',
                    map (obj_get e) kept))
       \<and> buildUpdateQuery m args now =
           (let e = auto_timestamp schema ''updatedAt'' now (spread (js_prop args ''data''));
                kept = filter (\<lambda>k. map_of (fieldMap schema) k \<noteq> None) (map fst e);
                cols = List.map_filter (map_of (fieldMap schema)) (map fst e);
                wh = js_prop args ''where'';
                es = (if truthy wh then own_entries wh else [])
            in Inr (''UPDATE '' @ quote_ident (table schema) @ '' SET ''
                      @ join '', '' (column_equations cols 1)
                      @ (if truthy wh then
                           '' WHERE '' @ join '' AND ''
                             (column_equations (map (written_column schema \<circ> fst) es)
                                (length cols + 1))
                         else [])
                      @ '' RETURNING *'',
                    map (obj_get e) kept @ map snd es))
       \<and> buildSelectQuery m args =
           (let wh = js_prop args ''where'';
                es = (if truthy wh then own_entries wh else []);
                ob = js_prop args ''orderBy'';
                orders = (if truthy ob then (case ob of JArr os \<Rightarrow> os | _ \<Rightarrow> [ob]) else []);
                tk = js_prop args ''take'';
                sk = js_prop args ''skip''
            in if list_all (\<lambda>ord. \<not> nullish ord \<and> own_entries ord \<noteq> []) orders then
                 Inr (''SELECT * FROM '' @ quote_ident (table schema)
                        @ (if es \<noteq> [] then
                             '' WHERE '' @ join '' AND ''
                               (column_equations (map (written_column schema \<circ> fst) es) 1)
                           else [])
                        @ (if truthy ob then
                             '' ORDER BY '' @ join '', ''
                               (map (\<lambda>ord. case own_entries ord of
                                              [] \<Rightarrow> []
                                            | (f, d) # _ \<Rightarrow>
                                                quote_ident (written_column schema f) @ '' ''
                                                  @ toUpperCase (js_to_string d)) orders)
                           else [])
                        @ (if truthy tk then '' LIMIT '' @ js_to_string tk else [])
                        @ (if truthy sk then '' OFFSET '' @ js_to_string sk else []),
                      map snd es)
               else Inl TypeError)
       \<and> buildDeleteQuery m args =
           (let wh = js_prop args ''where'';
                es = (if truthy wh then own_entries wh else [])
            in Inr (''DELETE FROM '' @ quote_ident (table schema)
                      @ (if truthy wh then
                           '' WHERE '' @ join '' AND ''
                             (column_equations (map (written_column schema \<circ> fst) es) 1)
                         else []),
                    map snd es))
       \<and> buildCountQuery m args =
           (let wh = js_prop args ''where'';
                es = (if truthy wh then own_entries wh else [])
            in Inr (''SELECT COUNT(*) as count FROM '' @ quote_ident (table schema)
                      @ (if truthy wh then
                           '' WHERE '' @ join '' AND ''
                             (column_equations (map (written_column schema \<circ> fst) es) 1)
                         else []),
                    map snd es))"
proof -
  have d: "buildDeleteQuery m args = filtered_body ''DELETE FROM '' schema args"
    using m by (simp add: buildDeleteQuery_def)
  have c: "buildCountQuery m args = filtered_body ''SELECT COUNT(*) as count FROM '' schema args"
    using m a by (auto simp: buildCountQuery_def nullish_def)
  note i = insert_plain [OF m pi, of now1 now2]
  note u = update_plain [OF m a pd pw, of now]
  note s = select_plain [OF m a pw po]
  note fd = filtered_plain [OF m a pw, of "''DELETE FROM ''"]
  note fc = filtered_plain [OF m a pw, of "''SELECT COUNT(*) as count FROM ''"]
  show ?thesis unfolding d c by (intro conjI i u s fd fc)
qed

text \<open>
  The \<^verbatim>\<open>user\<close> model with the unknown names \<^verbatim>\<open>role\<close> and \<^verbatim>\<open>rank\<close>: \<^verbatim>\<open>role\<close> is dropped from the
  columns of the insert and from the assignments of the update, and is a column of every
  where clause; \<^verbatim>\<open>rank\<close> is the column of the order clause.
\<close>

theorem compiled_identifiers_witness:
  "SCHEMA_MAPPING ''user'' = Some user_schema
   \<and> \<not> nullish (JObj [(''data'', JObj [(''name'', JStr ''Ana''), (''role'', JStr ''admin'')]),
                      (''where'', JObj [(''id'', JNum 1), (''role'', JStr ''admin'')]),
                      (''orderBy'', JObj [(''rank'', JStr ''desc'')])])
   \<and> plain_keys (JObj [(''name'', JStr ''Ana''), (''role'', JStr ''admin'')])
   \<and> plain_keys (JObj [(''id'', JNum 1), (''role'', JStr ''admin'')])
   \<and> list_all plain_keys [JObj [(''rank'', JStr ''desc'')]]
   \<and> map (map_of (fieldMap user_schema)) [''name'', ''id'', ''role'', ''rank'']
       = [Some ''name'', Some ''id'', None, None]
   \<and> buildInsertQuery ''user'' (JObj [(''name'', JStr ''Ana''), (''role'', JStr ''admin'')])
        (JNum 5) (JNum 6)
       = Inr (newline @ ''      INSERT INTO '' @ quote_ident ''users'' @ '' (''
                @ quote_ident ''name'' @ '', '' @ quote_ident ''createdAt'' @ '', ''
                @ quote_ident ''updatedAt'' @ '')''
              @ newline @ ''      VALUES ($1, $2, $3)''
              @ newline @ ''      RETURNING *''
              @ newline @ ''    '',
              [JStr ''Ana'', JNum 5, JNum 6])
   \<and> buildUpdateQuery ''user''
        (JObj [(''data'', JObj [(''name'', JStr ''Ana''), (''role'', JStr ''admin'')]),
               (''where'', JObj [(''id'', JNum 1), (''role'', JStr ''admin'')]),
               (''orderBy'', JObj [(''rank'', JStr ''desc'')])]) (JNum 7)
       = Inr (''UPDATE '' @ quote_ident ''users'' @ '' SET '' @ quote_ident ''name'' @ '' = $1, ''
                @ quote_ident ''updatedAt'' @ '' = $2 WHERE '' @ quote_ident ''id'' @ '' = $3 AND ''
                @ quote_ident ''role'' @ '' = $4 RETURNING *'',
              [JStr ''Ana'', JNum 7, JNum 1, JStr ''admin''])
   \<and> buildSelectQuery ''user''
        (JObj [(''data'', JObj [(''name'', JStr ''Ana''), (''role'', JStr ''admin'')]),
               (''where'', JObj [(''id'', JNum 1), (''role'', JStr ''admin'')]),
               (''orderBy'', JObj [(''rank'', JStr ''desc'')])])
       = Inr (''SELECT * FROM '' @ quote_ident ''users'' @ '' WHERE '' @ quote_ident ''id''
                @ '' = $1 AND '' @ quote_ident ''role'' @ '' = $2 ORDER BY ''
                @ quote_ident ''rank'' @ '' DESC'',
              [JNum 1, JStr ''admin''])
   \<and> buildDeleteQuery ''user''
        (JObj [(''data'', JObj [(''name'', JStr ''Ana''), (''role'', JStr ''admin'')]),
               (''where'', JObj [(''id'', JNum 1), (''role'', JStr ''admin'')]),
               (''orderBy'', JObj [(''rank'', JStr ''desc'')])])
       = Inr (''DELETE FROM '' @ quote_ident ''users'' @ '' WHERE '' @ quote_ident ''id''
                @ '' = $1 AND '' @ quote_ident ''role'' @ '' = $2'',
              [JNum 1, JStr ''admin''])
   \<and> buildCountQuery ''user''
        (JObj [(''data'', JObj [(''name'', JStr ''Ana''), (''role'', JStr ''admin'')]),
               (''where'', JObj [(''id'', JNum 1), (''role'', JStr ''admin'')]),
               (''orderBy'', JObj [(''rank'', JStr ''desc'')])])
       = Inr (''SELECT COUNT(*) as count FROM '' @ quote_ident ''users'' @ '' WHERE ''
                @ quote_ident ''id'' @ '' = $1 AND '' @ quote_ident ''role'' @ '' = $2'',
              [JNum 1, JStr ''admin''])"
proof -
  let ?data = "JObj [(''name'', JStr ''Ana''), (''role'', JStr ''admin'')]"
  let ?wh = "JObj [(''id'', JNum 1), (''role'', JStr ''admin'')]"
  let ?ord = "JObj [(''rank'', JStr ''desc'')]"
  let ?args = "JObj [(''data'', ?data), (''where'', ?wh), (''orderBy'', ?ord)]"
  have a: "\<not> nullish ?args" by (simp add: nullish_def)
  have pi: "plain_keys ?data" by code_simp
  have pw0: "plain_keys ?wh" by code_simp
  have po0: "list_all plain_keys [?ord]" by code_simp
  have gd: "js_prop ?args ''data'' = ?data" by code_simp
  have gw: "js_prop ?args ''where'' = ?wh" by code_simp
  have go: "js_prop ?args ''orderBy'' = ?ord" by code_simp
  have pd: "plain_keys (js_prop ?args ''data'')" unfolding gd by (rule pi)
  have pw: "plain_keys (js_prop ?args ''where'')" unfolding gw by (rule pw0)
  have po: "list_all plain_keys
              (case js_prop ?args ''orderBy'' of JArr os \<Rightarrow> os | _ \<Rightarrow> [js_prop ?args ''orderBy''])"
    unfolding go using po0 by simp
  have f: "map (map_of (fieldMap user_schema)) [''name'', ''id'', ''role'', ''rank'']
       = [Some ''name'', Some ''id'', None, None]"
    by code_simp
  note t = compiled_identifiers [OF user_entry a pi pd pw po, of "JNum 5" "JNum 6" "JNum 7"]
  have i: "buildInsertQuery ''user'' ?data (JNum 5) (JNum 6)
       = Inr (newline @ ''      INSERT INTO '' @ quote_ident ''users'' @ '' (''
                @ quote_ident ''name'' @ '', '' @ quote_ident ''createdAt'' @ '', ''
                @ quote_ident ''updatedAt'' @ '')''
              @ newline @ ''      VALUES ($1, $2, $3)''
              @ newline @ ''      RETURNING *''
              @ newline @ ''    '',
              [JStr ''Ana'', JNum 5, JNum 6])"
    apply (subst t [THEN conjunct1])
    apply code_simp
    done
  have u: "buildUpdateQuery ''user'' ?args (JNum 7)
       = Inr (''UPDATE '' @ quote_ident ''users'' @ '' SET '' @ quote_ident ''name'' @ '' = $1, ''
                @ quote_ident ''updatedAt'' @ '' = $2 WHERE '' @ quote_ident ''id'' @ '' = $3 AND ''
                @ quote_ident ''role'' @ '' = $4 RETURNING *'',
              [JStr ''Ana'', JNum 7, JNum 1, JStr ''admin''])"
    apply (subst t [THEN conjunct2, THEN conjunct1])
    apply code_simp
    done
  have s: "buildSelectQuery ''user'' ?args
       = Inr (''SELECT * FROM '' @ quote_ident ''users'' @ '' WHERE '' @ quote_ident ''id''
                @ '' = $1 AND '' @ quote_ident ''role'' @ '' = $2 ORDER BY ''
                @ quote_ident ''rank'' @ '' DESC'',
              [JNum 1, JStr ''admin''])"
    apply (subst t [THEN conjunct2, THEN conjunct2, THEN conjunct1])
    apply code_simp
    done
  have d: "buildDeleteQuery ''user'' ?args
       = Inr (''DELETE FROM '' @ quote_ident ''users'' @ '' WHERE '' @ quote_ident ''id''
                @ '' = $1 AND '' @ quote_ident ''role'' @ '' = $2'',
              [JNum 1, JStr ''admin''])"
    apply (subst t [THEN conjunct2, THEN conjunct2, THEN conjunct2, THEN conjunct1])
    apply code_simp
    done
  have c: "buildCountQuery ''user'' ?args
       = Inr (''SELECT COUNT(*) as count FROM '' @ quote_ident ''users'' @ '' WHERE ''
                @ quote_ident ''id'' @ '' = $1 AND '' @ quote_ident ''role'' @ '' = $2'',
              [JNum 1, JStr ''admin''])"
    apply (subst t [THEN conjunct2, THEN conjunct2, THEN conjunct2, THEN conjunct2])
    apply code_simp
    done
  from user_entry a pi pw0 po0 f i u s d c show ?thesis by (simp only: simp_thms)
qed

text \<open>
  C1 as stated fails for where and order-by: \<^verbatim>\<open>nope\<close> and \<^verbatim>\<open>rank\<close> are not keys of the field
  map of \<^verbatim>\<open>user\<close>, and both are columns of the compiled select.
\<close>

theorem where_identifier_counterexample:
  "buildSelectQuery ''user''
      (JObj [(''where'', JObj [(''nope'', JNum 1)]), (''orderBy'', JObj [(''rank'', JStr ''desc'')])])
     = Inr (''SELECT * FROM '' @ quote_ident ''users'' @ '' WHERE '' @ quote_ident ''nope''
              @ '' = $1 ORDER BY '' @ quote_ident ''rank'' @ '' DESC'', [JNum 1])
   \<and> map_of (fieldMap user_schema) ''nope'' = None
   \<and> map_of (fieldMap user_schema) ''rank'' = None
   \<and> SCHEMA_MAPPING ''user'' = Some user_schema"
  by code_simp

text \<open>
  C2. For every source text, the first line, top to bottom, that is not a comment and
  logs a binding decides the active binding: whatever follows that line, further log
  calls included, the locator selects the binding the first one names.
\<close>

theorem first_log_wins:
  assumes "\<forall>l \<in> set pre. line_log_var l = None" and "line_log_var l0 = Some v"
  shows "find_log_var (pre @ l0 # post) = v \<and> active_var (pre @ l0 # post) = Inr v"
proof -
  have f: "find_log_var (pre @ l0 # post) = v" using assms by (rule find_log_var_first)
  moreover have "v \<noteq> []" using assms(2) by (rule line_log_var_nonempty)
  ultimately show ?thesis by (simp add: active_var_def Let_def)
qed

text \<open>
  Two statements, a commented log call and two live ones: the first live call names
  \<^verbatim>\<open>a\<close>, the last names \<^verbatim>\<open>b\<close>, and \<^verbatim>\<open>a\<close> is selected.
\<close>

theorem first_log_wins_witness:
  "map line_log_var [''const a = await prisma.user.findMany()'', ''// console.log(b)'',
                      ''const b = await prisma.post.count()''] = [None, None, None]
   \<and> line_log_var ''console.log(a)'' = Some ''a''
   \<and> line_log_var ''console.log(b)'' = Some ''b''
   \<and> active_var [''const a = await prisma.user.findMany()'', ''// console.log(b)'',
                  ''const b = await prisma.post.count()'', ''console.log(a)'', ''console.log(b)'']
       = Inr ''a''"
proof -
  have m: "map line_log_var [''const a = await prisma.user.findMany()'', ''// console.log(b)'',
                      ''const b = await prisma.post.count()''] = [None, None, None]"
    by code_simp
  then have p: "\<forall>l \<in> set [''const a = await prisma.user.findMany()'', ''// console.log(b)'',
                 ''const b = await prisma.post.count()'']. line_log_var l = None"
    by simp
  have a: "line_log_var ''console.log(a)'' = Some ''a''" by code_simp
  have b: "line_log_var ''console.log(b)'' = Some ''b''" by code_simp
  from first_log_wins [OF p a, of "[''console.log(b)'']"] m a b show ?thesis by simp
qed

text \<open>
  C2 as stated fails: with log calls for \<^verbatim>\<open>a\<close> and then \<^verbatim>\<open>b\<close>, the parser returns the model
  and action of \<^verbatim>\<open>a\<close>, the first, not those of \<^verbatim>\<open>b\<close>, the last.
\<close>

theorem last_log_counterexample:
  "parseUserQuery (eval_table [])
     (''const a = await prisma.user.findMany()'' @ newline
        @ ''const b = await prisma.post.count()'' @ newline
        @ ''console.log(a)'' @ newline
        @ ''console.log(b)'')
     = Inr (''user'', ''findMany'', JUndefined)
   \<and> map line_log_var
        (split_on (CHR 0x0A)
          (''const a = await prisma.user.findMany()'' @ newline
             @ ''const b = await prisma.post.count()'' @ newline
             @ ''console.log(a)'' @ newline
             @ ''console.log(b)''))
       = [None, None, Some ''a'', Some ''b'']"
  by code_simp

text \<open>
  C3. The claim is that the payload is parsed by a grammar of literals and that no call
  or identifier in the pasted text is evaluated. The code does the opposite at the text
  \<^verbatim>\<open>{ take: Math.max(1, 2) }\<close>, which is not a literal: the text goes, between parentheses,
  to the host's \<^verbatim>\<open>eval\<close>, and the payload is whatever \<^verbatim>\<open>eval\<close> returns for it.
\<close>

theorem payload_is_host_evaluation:
  "parseUserQuery host_eval
     (''const r = await prisma.user.findMany({ take: Math.max(1, 2) })'' @ newline
        @ ''console.log(r)'')
     = Inr (''user'', ''findMany'',
            case host_eval ''({ take: Math.max(1, 2) })'' of
              Inr evaluatedPayload \<Rightarrow> evaluatedPayload
            | Inl evalError \<Rightarrow> JObj [])"
proof -
  have f: "fallback_payload ''findMany'' = JObj []" by (simp add: fallback_payload_def)
  have p: "parseUserQuery host_eval
     (''const r = await prisma.user.findMany({ take: Math.max(1, 2) })'' @ newline
        @ ''console.log(r)'')
     = Inr (''user'', ''findMany'',
            case host_eval ''({ take: Math.max(1, 2) })'' of
              Inr evaluatedPayload \<Rightarrow> evaluatedPayload
            | Inl evalError \<Rightarrow> fallback_payload ''findMany'')"
    by code_simp
  show ?thesis unfolding p f by (rule refl)
qed

text \<open>With a host that evaluates the call, the payload is \<^verbatim>\<open>{ take: 2 }\<close>.\<close>

theorem payload_is_host_evaluation_witness:
  "parseUserQuery (eval_table [(''({ take: Math.max(1, 2) })'', JObj [(''take'', JNum 2)])])
     (''const r = await prisma.user.findMany({ take: Math.max(1, 2) })'' @ newline
        @ ''console.log(r)'')
     = Inr (''user'', ''findMany'', JObj [(''take'', JNum 2)])"
  using payload_is_host_evaluation
          [of "eval_table [(''({ take: Math.max(1, 2) })'', JObj [(''take'', JNum 2)])]"]
  by (simp add: eval_table_def)

text \<open>
  C4. Whenever the evaluation of a non-empty payload text throws, the payload becomes the
  empty object for the actions \<^verbatim>\<open>findMany\<close>, \<^verbatim>\<open>findFirst\<close> and \<^verbatim>\<open>count\<close>, and the
  placeholder record \<^verbatim>\<open>{ data: { name, email } }\<close> for every other action, \<^verbatim>\<open>findUnique\<close>
  included.
\<close>

theorem fallback_after_failed_evaluation:
  assumes "trim payloadStr \<noteq> []"
    and "host_eval (''('' @ cleanPayload payloadStr @ '')'') = Inl e"
  shows "evaluate_payload host_eval action payloadStr =
           (if action = ''findMany'' \<or> action = ''findFirst'' \<or> action = ''count'' then JObj []
            else JObj [(''data'', JObj [(''name'', JStr ''Teste''),
                                         (''email'', JStr ''teste@exemplo.com'')])])"
proof -
  from assms(1) have "payloadStr \<noteq> []" by (auto simp: trim_def)
  with assms show ?thesis by (simp add: evaluate_payload_def fallback_payload_def)
qed

text \<open>A payload with an unbound identifier, for \<^verbatim>\<open>count\<close> and for \<^verbatim>\<open>delete\<close>.\<close>

theorem fallback_after_failed_evaluation_witness:
  "trim ''{ where: { id: userId } }'' \<noteq> []
   \<and> eval_table [] (''('' @ cleanPayload ''{ where: { id: userId } }'' @ '')'')
       = Inl (HostError ''SyntaxError'')
   \<and> evaluate_payload (eval_table []) ''count'' ''{ where: { id: userId } }'' = JObj []
   \<and> evaluate_payload (eval_table []) ''delete'' ''{ where: { id: userId } }''
       = JObj [(''data'', JObj [(''name'', JStr ''Teste''), (''email'', JStr ''teste@exemplo.com'')])]"
proof -
  have t: "trim ''{ where: { id: userId } }'' \<noteq> []" by code_simp
  have h: "eval_table [] (''('' @ cleanPayload ''{ where: { id: userId } }'' @ '')'')
             = Inl (HostError ''SyntaxError'')"
    by (simp add: eval_table_def)
  from fallback_after_failed_evaluation
         [where host_eval = "eval_table []" and action = "''count''", OF t h]
       fallback_after_failed_evaluation
         [where host_eval = "eval_table []" and action = "''delete''", OF t h] t h
  show ?thesis by simp
qed

text \<open>
  C4 as stated fails for \<^verbatim>\<open>findUnique\<close>: its fallback is the placeholder record, not the
  empty object.
\<close>

theorem findUnique_fallback_counterexample:
  "parseUserQuery (eval_table [])
     ''const u = await prisma.user.findUnique({ where: { id: userId } })''
     = Inr (''user'', ''findUnique'',
            JObj [(''data'', JObj [(''name'', JStr ''Teste''), (''email'', JStr ''teste@exemplo.com'')])])
   \<and> JObj [(''data'', JObj [(''name'', JStr ''Teste''), (''email'', JStr ''teste@exemplo.com'')])]
       \<noteq> JObj []"
  by code_simp

text \<open>
  C5. For every model and payload, \<^verbatim>\<open>findUnique\<close> does what \<^verbatim>\<open>findFirst\<close> does, a \<^verbatim>\<open>take\<close> in the
  payload changes nothing, and \<^verbatim>\<open>findFirst\<close> hands the driver one statement: the select of the
  payload's \<^verbatim>\<open>where\<close>, \<^verbatim>\<open>orderBy\<close> and \<^verbatim>\<open>skip\<close> with \<^verbatim>\<open>LIMIT 1\<close>, and returns its first row or
  \<^verbatim>\<open>null\<close>. A where clause is not required: for a payload without one the statement has no
  \<^verbatim>\<open>WHERE\<close> and no parameter, for \<^verbatim>\<open>findUnique\<close> as for \<^verbatim>\<open>findFirst\<close>.
\<close>

theorem findFirst_findUnique_limit_1:
  assumes "SCHEMA_MAPPING m = Some schema"
  shows "findUnique client m args s = findFirst client m args s
       \<and> findFirst client m (JObj (obj_set kvs ''take'' t)) s = findFirst client m (JObj kvs) s
       \<and> findFirst client m args s =
          (let a = spread args;
               wh = obj_get a ''where'';
               es = (if truthy wh then own_entries wh else []);
               ob = obj_get a ''orderBy'';
               sk = obj_get a ''skip''
           in case (if truthy ob
                    then map_err (orderClause schema) (case ob of JArr os \<Rightarrow> os | _ \<Rightarrow> [ob])
                    else Inr []) of
                Inl e \<Rightarrow> (Inl e, s)
              | Inr orderClauses \<Rightarrow>
                  (let q = ''SELECT * FROM '' @ quote_ident (table schema)
                         @ (if es \<noteq> [] then
                              '' WHERE '' @ join '' AND ''
                                (map (\<lambda>(field, i).
                                        quote_ident (dbFieldOf schema field) @ '' = $'' @ show_nat i)
                                   (zip (map fst es) [1..<1 + length es]))
                            else [])
                         @ (if truthy ob then '' ORDER BY '' @ join '', '' orderClauses else [])
                         @ '' LIMIT 1''
                         @ (if truthy sk then '' OFFSET '' @ js_to_string sk else []);
                       vs = map snd es
                   in case client (db s) q vs of
                        (Inl e, d) \<Rightarrow> (Inl e, \<lparr>db = d, sent = sent s @ [(q, vs)]\<rparr>)
                      | (Inr res, d) \<Rightarrow>
                          (Inr (first_row_or_null res),
                           \<lparr>db = d, sent = sent s @ [(q, vs)]\<rparr>)))"
proof (intro conjI)
  show "findUnique client m args s = findFirst client m args s"
    by (rule findUnique_eq_findFirst)
  show "findFirst client m (JObj (obj_set kvs ''take'' t)) s = findFirst client m (JObj kvs) s"
    by (simp add: findFirst_def find_one_ignores_take)
  have "findFirst client m args s = find_one client m args s"
    using findUnique_eq_findFirst [of client m args s] by (simp add: findUnique_def)
  then show "findFirst client m args s =
          (let a = spread args;
               wh = obj_get a ''where'';
               es = (if truthy wh then own_entries wh else []);
               ob = obj_get a ''orderBy'';
               sk = obj_get a ''skip''
           in case (if truthy ob
                    then map_err (orderClause schema) (case ob of JArr os \<Rightarrow> os | _ \<Rightarrow> [ob])
                    else Inr []) of
                Inl e \<Rightarrow> (Inl e, s)
              | Inr orderClauses \<Rightarrow>
                  (let q = ''SELECT * FROM '' @ quote_ident (table schema)
                         @ (if es \<noteq> [] then
                              '' WHERE '' @ join '' AND ''
                                (map (\<lambda>(field, i).
                                        quote_ident (dbFieldOf schema field) @ '' = $'' @ show_nat i)
                                   (zip (map fst es) [1..<1 + length es]))
                            else [])
                         @ (if truthy ob then '' ORDER BY '' @ join '', '' orderClauses else [])
                         @ '' LIMIT 1''
                         @ (if truthy sk then '' OFFSET '' @ js_to_string sk else []);
                       vs = map snd es
                   in case client (db s) q vs of
                        (Inl e, d) \<Rightarrow> (Inl e, \<lparr>db = d, sent = sent s @ [(q, vs)]\<rparr>)
                      | (Inr res, d) \<Rightarrow>
                          (Inr (first_row_or_null res),
                           \<lparr>db = d, sent = sent s @ [(q, vs)]\<rparr>)))"
    by (simp only: find_one_closed [OF assms])
qed

text \<open>
  At the \<^verbatim>\<open>user\<close> model with the payload \<^verbatim>\<open>{ where: { id: 7 }, take: 50, skip: 2 }\<close>:
  \<^verbatim>\<open>findMany\<close> would compile \<^verbatim>\<open>LIMIT 50\<close>, \<^verbatim>\<open>findFirst\<close> and \<^verbatim>\<open>findUnique\<close> send \<^verbatim>\<open>LIMIT 1\<close>; and
  with the payload \<^verbatim>\<open>{ skip: 2 }\<close>, which has no where clause.
\<close>

theorem findFirst_findUnique_limit_1_witness:
  "SCHEMA_MAPPING ''user'' = Some user_schema
   \<and> buildSelectQuery ''user''
        (JObj [(''where'', JObj [(''id'', JNum 7)]), (''take'', JNum 50), (''skip'', JNum 2)])
       = Inr (''SELECT * FROM '' @ quote_ident ''users'' @ '' WHERE '' @ quote_ident ''id''
                @ '' = $1 LIMIT 50 OFFSET 2'', [JNum 7])
   \<and> findFirst scripted_client ''user''
        (JObj [(''where'', JObj [(''id'', JNum 7)]), (''take'', JNum 50), (''skip'', JNum 2)])
        \<lparr>db = [Inr \<lparr>rows = [JObj [(''id'', JNum 7)]], rowCount = Some 1\<rparr>], sent = []\<rparr>
       = (Inr (JObj [(''id'', JNum 7)]),
          \<lparr>db = [],
            sent = [(''SELECT * FROM '' @ quote_ident ''users'' @ '' WHERE '' @ quote_ident ''id''
                       @ '' = $1 LIMIT 1 OFFSET 2'', [JNum 7])]\<rparr>)
   \<and> findUnique scripted_client ''user''
        (JObj [(''where'', JObj [(''id'', JNum 7)]), (''take'', JNum 50), (''skip'', JNum 2)])
        \<lparr>db = [Inr \<lparr>rows = [JObj [(''id'', JNum 7)]], rowCount = Some 1\<rparr>], sent = []\<rparr>
       = (Inr (JObj [(''id'', JNum 7)]),
          \<lparr>db = [],
            sent = [(''SELECT * FROM '' @ quote_ident ''users'' @ '' WHERE '' @ quote_ident ''id''
                       @ '' = $1 LIMIT 1 OFFSET 2'', [JNum 7])]\<rparr>)
   \<and> findFirst scripted_client ''user'' (JObj [(''skip'', JNum 2)])
        \<lparr>db = [Inr \<lparr>rows = [JObj [(''id'', JNum 3)]], rowCount = Some 1\<rparr>], sent = []\<rparr>
       = (Inr (JObj [(''id'', JNum 3)]),
          \<lparr>db = [],
            sent = [(''SELECT * FROM '' @ quote_ident ''users'' @ '' LIMIT 1 OFFSET 2'', [])]\<rparr>)"
proof -
  let ?args = "JObj [(''where'', JObj [(''id'', JNum 7)]), (''take'', JNum 50), (''skip'', JNum 2)]"
  let ?s = "\<lparr>db = [Inr \<lparr>rows = [JObj [(''id'', JNum 7)]], rowCount = Some 1\<rparr>], sent = []\<rparr>
              :: (error + qresult) list session"
  let ?s3 = "\<lparr>db = [Inr \<lparr>rows = [JObj [(''id'', JNum 3)]], rowCount = Some 1\<rparr>], sent = []\<rparr>
              :: (error + qresult) list session"
  note t = findFirst_findUnique_limit_1 [OF user_entry]
  have e: "buildSelectQuery ''user'' ?args
       = Inr (''SELECT * FROM '' @ quote_ident ''users'' @ '' WHERE '' @ quote_ident ''id''
                @ '' = $1 LIMIT 50 OFFSET 2'', [JNum 7])"
    by code_simp
  have f: "findFirst scripted_client ''user'' ?args ?s
       = (Inr (JObj [(''id'', JNum 7)]),
          \<lparr>db = [],
            sent = [(''SELECT * FROM '' @ quote_ident ''users'' @ '' WHERE '' @ quote_ident ''id''
                       @ '' = $1 LIMIT 1 OFFSET 2'', [JNum 7])]\<rparr>)"
    apply (subst t [THEN conjunct2, THEN conjunct2])
    apply code_simp
    done
  have u: "findUnique scripted_client ''user'' ?args ?s = findFirst scripted_client ''user'' ?args ?s"
    by (rule t [THEN conjunct1])
  have g: "findFirst scripted_client ''user'' (JObj [(''skip'', JNum 2)]) ?s3
       = (Inr (JObj [(''id'', JNum 3)]),
          \<lparr>db = [],
            sent = [(''SELECT * FROM '' @ quote_ident ''users'' @ '' LIMIT 1 OFFSET 2'', [])]\<rparr>)"
    apply (subst t [THEN conjunct2, THEN conjunct2])
    apply code_simp
    done
  from user_entry e f u g show ?thesis by (simp only: simp_thms)
qed

text \<open>
  C5 as stated fails: \<^verbatim>\<open>findUnique\<close> does not require a where clause. With the empty
  payload it sends the unfiltered select and returns the first row of the table.
\<close>

theorem findUnique_without_where_counterexample:
  "findUnique scripted_client ''user'' (JObj [])
      \<lparr>db = [Inr \<lparr>rows = [JObj [(''id'', JNum 1)]], rowCount = Some 1\<rparr>], sent = []\<rparr>
    = (Inr (JObj [(''id'', JNum 1)]),
       \<lparr>db = [], sent = [(''SELECT * FROM '' @ quote_ident ''users'' @ '' LIMIT 1'', [])]\<rparr>)"
  by code_simp

text \<open>
  C6. For every model and where payload, \<^verbatim>\<open>delete\<close> first sends the \<^verbatim>\<open>findUnique\<close> select of
  the where. When the answer has no row it raises the not-found error and that select is
  the only statement sent; when the answer has a row it sends the delete statement next
  and returns the row the select fetched.
\<close>

theorem delete_checks_then_acts:
  assumes m: "SCHEMA_MAPPING m = Some schema"
    and a: "\<not> nullish args"
    and sel: "buildSelectQuery m
                (JObj (obj_set (spread (JObj [(''where'', js_prop args ''where'')])) ''take'' (JNum 1)))
              = Inr (sq, svs)"
    and r1: "client (db s) sq svs = (Inr res, d1)"
  shows "(rows res = [] \<longrightarrow>
            delete client m args s
              = (Inl RecordNotFoundForDelete, \<lparr>db = d1, sent = sent s @ [(sq, svs)]\<rparr>))
       \<and> (\<forall>r rs dq dvs res2 d2.
            rows res = r # rs \<and> truthy r \<and> buildDeleteQuery m args = Inr (dq, dvs)
              \<and> client d1 dq dvs = (Inr res2, d2) \<longrightarrow>
            delete client m args s
              = (Inr r, \<lparr>db = d2, sent = sent s @ [(sq, svs), (dq, dvs)]\<rparr>))
       \<and> prefix ''SELECT * FROM '' sq
       \<and> (\<forall>dq dvs. buildDeleteQuery m args = Inr (dq, dvs) \<longrightarrow> prefix ''DELETE FROM '' dq)"
proof -
  let ?s1 = "\<lparr>db = d1, sent = sent s @ [(sq, svs)]\<rparr>"
  have look: "findUnique client m (JObj [(''where'', js_prop args ''where'')]) s
                = (Inr (first_row_or_null res), ?s1)"
    using sel r1 by (simp add: findUnique_def find_one_def client_query_def)
  have none: "delete client m args s = (Inl RecordNotFoundForDelete, ?s1)" if "rows res = []"
    using a look that by (simp add: delete_def first_row_or_null_def)
  have some: "delete client m args s
                = (Inr r, \<lparr>db = d2, sent = sent s @ [(sq, svs), (dq, dvs)]\<rparr>)"
    if "rows res = r # rs" "truthy r" "buildDeleteQuery m args = Inr (dq, dvs)"
       "client d1 dq dvs = (Inr res2, d2)" for r rs dq dvs res2 d2
    using a look that by (simp add: delete_def first_row_or_null_def client_query_def)
  have ps: "prefix ''SELECT * FROM '' sq"
    using sel m by (auto simp: buildSelectQuery_def split: if_splits intro: select_body_prefix)
  have pd: "prefix ''DELETE FROM '' dq" if "buildDeleteQuery m args = Inr (dq, dvs)" for dq dvs
    using that m by (auto simp: buildDeleteQuery_def intro: filtered_body_prefix)
  from none some ps pd show ?thesis by blast
qed

text \<open>Deleting user 7, first from a table without it, then from a table that has it.\<close>

theorem delete_checks_then_acts_witness:
  "SCHEMA_MAPPING ''user'' = Some user_schema
   \<and> \<not> nullish (JObj [(''where'', JObj [(''id'', JNum 7)])])
   \<and> delete scripted_client ''user'' (JObj [(''where'', JObj [(''id'', JNum 7)])])
        \<lparr>db = [Inr \<lparr>rows = [], rowCount = Some 0\<rparr>], sent = []\<rparr>
       = (Inl RecordNotFoundForDelete,
          \<lparr>db = [], sent = [(''SELECT * FROM '' @ quote_ident ''users'' @ '' WHERE ''
                                @ quote_ident ''id'' @ '' = $1 LIMIT 1'', [JNum 7])]\<rparr>)
   \<and> delete scripted_client ''user'' (JObj [(''where'', JObj [(''id'', JNum 7)])])
        \<lparr>db = [Inr \<lparr>rows = [JObj [(''id'', JNum 7), (''name'', JStr ''Ana'')]], rowCount = Some 1\<rparr>,
               Inr \<lparr>rows = [], rowCount = Some 1\<rparr>], sent = []\<rparr>
       = (Inr (JObj [(''id'', JNum 7), (''name'', JStr ''Ana'')]),
          \<lparr>db = [], sent = [(''SELECT * FROM '' @ quote_ident ''users'' @ '' WHERE ''
                                @ quote_ident ''id'' @ '' = $1 LIMIT 1'', [JNum 7]),
                              (''DELETE FROM '' @ quote_ident ''users'' @ '' WHERE ''
                                @ quote_ident ''id'' @ '' = $1'', [JNum 7])]\<rparr>)"
proof -
  let ?args = "JObj [(''where'', JObj [(''id'', JNum 7)])]"
  let ?sq = "''SELECT * FROM '' @ quote_ident ''users'' @ '' WHERE '' @ quote_ident ''id''
               @ '' = $1 LIMIT 1''"
  let ?dq = "''DELETE FROM '' @ quote_ident ''users'' @ '' WHERE '' @ quote_ident ''id'' @ '' = $1''"
  let ?row = "JObj [(''id'', JNum 7), (''name'', JStr ''Ana'')]"
  let ?none = "\<lparr>rows = [], rowCount = Some 0\<rparr>"
  let ?one = "\<lparr>rows = [?row], rowCount = Some 1\<rparr>"
  let ?done = "\<lparr>rows = [], rowCount = Some 1\<rparr>"
  let ?s0 = "\<lparr>db = [Inr ?none], sent = []\<rparr> :: (error + qresult) list session"
  let ?s1 = "\<lparr>db = [Inr ?one, Inr ?done], sent = []\<rparr> :: (error + qresult) list session"
  have a: "\<not> nullish ?args" by (simp add: nullish_def)
  have sel: "buildSelectQuery ''user''
                (JObj (obj_set (spread (JObj [(''where'', js_prop ?args ''where'')])) ''take'' (JNum 1)))
              = Inr (?sq, [JNum 7])"
    by code_simp
  have del: "buildDeleteQuery ''user'' ?args = Inr (?dq, [JNum 7])"
    by code_simp
  have r0: "scripted_client (db ?s0) ?sq [JNum 7] = (Inr ?none, [])"
    by (simp add: scripted_client_def)
  have r1: "scripted_client (db ?s1) ?sq [JNum 7] = (Inr ?one, [Inr ?done])"
    by (simp add: scripted_client_def)
  have r2: "scripted_client [Inr ?done] ?dq [JNum 7] = (Inr ?done, [])"
    by (simp add: scripted_client_def)
  from delete_checks_then_acts [where client = scripted_client and s = ?s0, OF user_entry a sel r0]
  have x: "delete scripted_client ''user'' ?args ?s0
             = (Inl RecordNotFoundForDelete, \<lparr>db = [], sent = [(?sq, [JNum 7])]\<rparr>)"
    by simp
  from delete_checks_then_acts [where client = scripted_client and s = ?s1, OF user_entry a sel r1]
  have "\<forall>r rs dq dvs res2 d2.
            rows ?one = r # rs \<and> truthy r \<and> buildDeleteQuery ''user'' ?args = Inr (dq, dvs)
              \<and> scripted_client [Inr ?done] dq dvs = (Inr res2, d2) \<longrightarrow>
            delete scripted_client ''user'' ?args ?s1
              = (Inr r, \<lparr>db = d2, sent = sent ?s1 @ [(?sq, [JNum 7]), (dq, dvs)]\<rparr>)"
    by blast
  from this [rule_format, of ?row "[]" ?dq "[JNum 7]" ?done "[]"] del r2
  have y: "delete scripted_client ''user'' ?args ?s1
             = (Inr ?row, \<lparr>db = [], sent = [(?sq, [JNum 7]), (?dq, [JNum 7])]\<rparr>)"
    by simp
  from user_entry a x y show ?thesis by simp
qed

text \<open>
  C7. For every model and payload, \<^verbatim>\<open>aggregate\<close> sends exactly the statement \<^verbatim>\<open>count\<close> sends
  for that payload and returns \<^verbatim>\<open>{ _count: { _all: N } }\<close>, \<open>N\<close> being what \<^verbatim>\<open>count\<close>
  returns; nothing else is computed.
\<close>

theorem aggregate_is_count_wrapped:
  assumes "SCHEMA_MAPPING m = Some schema"
  shows "aggregate client m args s =
           (case count client m args s of
              (Inl e, s') \<Rightarrow> (Inl e, s')
            | (Inr n, s') \<Rightarrow> (Inr (JObj [(''_count'', JObj [(''_all'', n)])]), s'))"
proof (cases "nullish (if args = JUndefined then JObj [] else args)")
  case True
  then have n: "args = JNull" by (auto simp: nullish_def split: if_splits)
  have "count client m JNull s = (Inl TypeError, s)"
    using assms by (simp add: count_def buildCountQuery_def filtered_body_def nullish_def)
  moreover have "aggregate client m JNull s = (Inl TypeError, s)"
    by (simp add: aggregate_def nullish_def)
  ultimately show ?thesis using n by simp
next
  case False
  have "count client m
           (if truthy (js_prop (if args = JUndefined then JObj [] else args) ''where'')
            then JObj [(''where'', js_prop (if args = JUndefined then JObj [] else args) ''where'')]
            else JObj []) s = count client m args s"
    unfolding count_def count_query_of_aggregate_args [OF assms False] ..
  with False show ?thesis by (simp add: aggregate_def Let_def)
qed

text \<open>Three published posts.\<close>

theorem aggregate_is_count_wrapped_witness:
  "SCHEMA_MAPPING ''post'' \<noteq> None
   \<and> count scripted_client ''post'' (JObj [(''where'', JObj [(''published'', JBool True)])])
        \<lparr>db = [Inr \<lparr>rows = [JObj [(''count'', JStr ''3'')]], rowCount = Some 1\<rparr>], sent = []\<rparr>
       = (Inr (JNum 3),
          \<lparr>db = [], sent = [(''SELECT COUNT(*) as count FROM '' @ quote_ident ''posts''
                                @ '' WHERE '' @ quote_ident ''published'' @ '' = $1'', [JBool True])]\<rparr>)
   \<and> aggregate scripted_client ''post'' (JObj [(''where'', JObj [(''published'', JBool True)])])
        \<lparr>db = [Inr \<lparr>rows = [JObj [(''count'', JStr ''3'')]], rowCount = Some 1\<rparr>], sent = []\<rparr>
       = (Inr (JObj [(''_count'', JObj [(''_all'', JNum 3)])]),
          \<lparr>db = [], sent = [(''SELECT COUNT(*) as count FROM '' @ quote_ident ''posts''
                                @ '' WHERE '' @ quote_ident ''published'' @ '' = $1'', [JBool True])]\<rparr>)"
proof -
  let ?args = "JObj [(''where'', JObj [(''published'', JBool True)])]"
  let ?s = "\<lparr>db = [Inr \<lparr>rows = [JObj [(''count'', JStr ''3'')]], rowCount = Some 1\<rparr>], sent = []\<rparr>
              :: (error + qresult) list session"
  obtain schema where h: "SCHEMA_MAPPING ''post'' = Some schema"
    by (simp add: SCHEMA_MAPPING_def SCHEMA_MAPPING_entries_def)
  have c: "count scripted_client ''post'' ?args ?s
       = (Inr (JNum 3),
          \<lparr>db = [], sent = [(''SELECT COUNT(*) as count FROM '' @ quote_ident ''posts''
                                @ '' WHERE '' @ quote_ident ''published'' @ '' = $1'', [JBool True])]\<rparr>)"
    by code_simp
  from aggregate_is_count_wrapped [OF h, of scripted_client ?args ?s] c h
  show ?thesis by simp
qed

text \<open>
  C7 as stated fails on the keys: the result is \<^verbatim>\<open>{ _count: { _all: 3 } }\<close>, which is not
  \<^verbatim>\<open>{ count: { all: 3 } }\<close>.
\<close>

theorem aggregate_shape_counterexample:
  "fst (aggregate scripted_client ''post'' (JObj [])
         \<lparr>db = [Inr \<lparr>rows = [JObj [(''count'', JStr ''3'')]], rowCount = Some 1\<rparr>], sent = []\<rparr>)
     = Inr (JObj [(''_count'', JObj [(''_all'', JNum 3)])])
   \<and> fst (aggregate scripted_client ''post'' (JObj [])
         \<lparr>db = [Inr \<lparr>rows = [JObj [(''count'', JStr ''3'')]], rowCount = Some 1\<rparr>], sent = []\<rparr>)
     \<noteq> Inr (JObj [(''count'', JObj [(''all'', JNum 3)])])"
  by code_simp

text \<open>
  C8. In every compiled where clause the placeholders are one per key of the where
  object, in key order, and the parameters are the values of those keys in that order;
  in an update they follow the parameters of the assignments. In a set clause the
  placeholders are one per kept assignment key, not one per supplied key: a key the
  schema's fields do not resolve is dropped, \<^verbatim>\<open>updatedAt\<close> is added when the model has it
  and the payload gives it no truthy value, and the kept keys are numbered from \<^verbatim>\<open>$1\<close> in
  key order with their values as parameters in the same order.
\<close>

theorem placeholders_follow_kept_keys:
  assumes "\<not> nullish args"
  shows "(let enhancedData = auto_timestamp schema ''updatedAt'' now (spread (js_prop args ''data''));
              fs = setFields schema enhancedData;
              wh = js_prop args ''where'';
              es = (if truthy wh then own_entries wh else [])
          in update_body schema args now =
               Inr (''UPDATE '' @ quote_ident (table schema) @ '' SET ''
                      @ join '', ''
                          (map (\<lambda>(field, i). quote_ident (fields_render schema field) @ '' = $'' @ show_nat i)
                             (zip fs [1..<1 + length fs]))
                      @ (if truthy wh then
                           '' WHERE '' @ join '' AND ''
                             (map (\<lambda>(field, i). quote_ident (dbFieldOf schema field) @ '' = $'' @ show_nat i)
                                (zip (map fst es) [length fs + 1..<length fs + 1 + length es]))
                         else [])
                      @ '' RETURNING *'',
                    map (obj_get enhancedData) fs @ map snd es))
       \<and> (\<forall>q vs. select_body schema args = Inr (q, vs) \<longrightarrow>
            (let wh = js_prop args ''where'';
                 es = (if truthy wh then own_entries wh else [])
             in vs = map snd es
              \<and> (\<exists>rest. q = ''SELECT * FROM '' @ quote_ident (table schema)
                    @ (if es \<noteq> [] then
                         '' WHERE '' @ join '' AND ''
                           (map (\<lambda>(field, i). quote_ident (dbFieldOf schema field) @ '' = $'' @ show_nat i)
                              (zip (map fst es) [1..<1 + length es]))
                       else [])
                    @ rest)))"
proof (intro conjI allI impI)
  show "let enhancedData = auto_timestamp schema ''updatedAt'' now (spread (js_prop args ''data''));
              fs = setFields schema enhancedData;
              wh = js_prop args ''where'';
              es = (if truthy wh then own_entries wh else [])
          in update_body schema args now =
               Inr (''UPDATE '' @ quote_ident (table schema) @ '' SET ''
                      @ join '', ''
                          (map (\<lambda>(field, i). quote_ident (fields_render schema field) @ '' = $'' @ show_nat i)
                             (zip fs [1..<1 + length fs]))
                      @ (if truthy wh then
                           '' WHERE '' @ join '' AND ''
                             (map (\<lambda>(field, i). quote_ident (dbFieldOf schema field) @ '' = $'' @ show_nat i)
                                (zip (map fst es) [length fs + 1..<length fs + 1 + length es]))
                         else [])
                      @ '' RETURNING *'',
                    map (obj_get enhancedData) fs @ map snd es)"
    unfolding update_body_eq [OF assms] Let_def by (rule refl)
next
  fix q vs
  assume "select_body schema args = Inr (q, vs)"
  then show "let wh = js_prop args ''where'';
                 es = (if truthy wh then own_entries wh else [])
             in vs = map snd es
              \<and> (\<exists>rest. q = ''SELECT * FROM '' @ quote_ident (table schema)
                    @ (if es \<noteq> [] then
                         '' WHERE '' @ join '' AND ''
                           (map (\<lambda>(field, i). quote_ident (dbFieldOf schema field) @ '' = $'' @ show_nat i)
                              (zip (map fst es) [1..<1 + length es]))
                       else [])
                    @ rest)"
    by (rule select_body_where_part)
qed

text \<open>
  An update of a user with a known and an unknown assignment key and two where keys, and
  the select of the same payload.
\<close>

theorem placeholders_follow_kept_keys_witness:
  "\<not> nullish (JObj [(''data'', JObj [(''name'', JStr ''x''), (''nickname'', JStr ''y'')]),
                   (''where'', JObj [(''id'', JNum 1), (''email'', JStr ''e'')])])
   \<and> update_body user_schema
        (JObj [(''data'', JObj [(''name'', JStr ''x''), (''nickname'', JStr ''y'')]),
               (''where'', JObj [(''id'', JNum 1), (''email'', JStr ''e'')])])
        (JNum 1767225600000)
       = Inr (''UPDATE '' @ quote_ident ''users'' @ '' SET '' @ quote_ident ''name'' @ '' = $1, ''
                @ quote_ident ''updatedAt'' @ '' = $2 WHERE '' @ quote_ident ''id''
                @ '' = $3 AND '' @ quote_ident ''email'' @ '' = $4 RETURNING *'',
              [JStr ''x'', JNum 1767225600000, JNum 1, JStr ''e''])
   \<and> select_body user_schema
        (JObj [(''data'', JObj [(''name'', JStr ''x''), (''nickname'', JStr ''y'')]),
               (''where'', JObj [(''id'', JNum 1), (''email'', JStr ''e'')])])
       = Inr (''SELECT * FROM '' @ quote_ident ''users'' @ '' WHERE '' @ quote_ident ''id''
                @ '' = $1 AND '' @ quote_ident ''email'' @ '' = $2'',
              [JNum 1, JStr ''e''])
   \<and> [JNum 1, JStr ''e'']
       = map snd (own_entries (JObj [(''id'', JNum 1), (''email'', JStr ''e'')]))"
proof -
  let ?args = "JObj [(''data'', JObj [(''name'', JStr ''x''), (''nickname'', JStr ''y'')]),
                   (''where'', JObj [(''id'', JNum 1), (''email'', JStr ''e'')])]"
  let ?now = "JNum 1767225600000"
  let ?q = "''SELECT * FROM '' @ quote_ident ''users'' @ '' WHERE '' @ quote_ident ''id''
                @ '' = $1 AND '' @ quote_ident ''email'' @ '' = $2''"
  have a: "\<not> nullish ?args" by (simp add: nullish_def)
  have u: "update_body user_schema ?args ?now
       = Inr (''UPDATE '' @ quote_ident ''users'' @ '' SET '' @ quote_ident ''name'' @ '' = $1, ''
                @ quote_ident ''updatedAt'' @ '' = $2 WHERE '' @ quote_ident ''id''
                @ '' = $3 AND '' @ quote_ident ''email'' @ '' = $4 RETURNING *'',
              [JStr ''x'', ?now, JNum 1, JStr ''e''])"
    by code_simp
  have sl: "select_body user_schema ?args = Inr (?q, [JNum 1, JStr ''e''])"
    by code_simp
  have wh: "js_prop ?args ''where'' = JObj [(''id'', JNum 1), (''email'', JStr ''e'')]"
    by code_simp
  from placeholders_follow_kept_keys [OF a, of user_schema ?now]
  have "\<forall>q vs. select_body user_schema ?args = Inr (q, vs) \<longrightarrow>
            (let wh = js_prop ?args ''where'';
                 es = (if truthy wh then own_entries wh else [])
             in vs = map snd es)"
    by (simp add: Let_def)
  from this [rule_format, OF sl]
  have "[JNum 1, JStr ''e''] = map snd (own_entries (JObj [(''id'', JNum 1), (''email'', JStr ''e'')]))"
    unfolding Let_def wh by simp
  with a u sl show ?thesis by blast
qed

text \<open>
  C8 as stated fails for the set clause: one assignment key is supplied, the clause has
  two placeholders and the parameter list starts with two values.
\<close>

theorem set_placeholders_counterexample:
  "buildUpdateQuery ''user''
      (JObj [(''data'', JObj [(''name'', JStr ''x'')]), (''where'', JObj [(''id'', JNum 1)])])
      (JNum 1767225600000)
     = Inr (''UPDATE '' @ quote_ident ''users'' @ '' SET '' @ quote_ident ''name'' @ '' = $1, ''
              @ quote_ident ''updatedAt'' @ '' = $2 WHERE '' @ quote_ident ''id''
              @ '' = $3 RETURNING *'',
            [JStr ''x'', JNum 1767225600000, JNum 1])
   \<and> length (own_entries (JObj [(''name'', JStr ''x'')])) = 1
   \<and> length (setClauses user_schema
        (setFields user_schema
          (auto_timestamp user_schema ''updatedAt'' (JNum 1767225600000)
            (spread (JObj [(''name'', JStr ''x'')]))))) = 2"
  by code_simp

text \<open>
  C9. For every model and every where filter, \<^verbatim>\<open>findUnique\<close> and \<^verbatim>\<open>findFirst\<close> compile
  without an error and return \<^verbatim>\<open>null\<close>, not an error, when the database answers the
  statement with no row.
\<close>

theorem find_returns_null_when_no_row:
  assumes "SCHEMA_MAPPING m = Some schema"
  shows "\<exists>q vs. buildSelectQuery m (JObj (obj_set (spread (JObj [(''where'', w)])) ''take'' (JNum 1)))
                  = Inr (q, vs)
          \<and> (\<forall>client s res d. client (db s) q vs = (Inr res, d) \<and> rows res = [] \<longrightarrow>
                fst (findUnique client m (JObj [(''where'', w)]) s) = Inr JNull
              \<and> fst (findFirst client m (JObj [(''where'', w)]) s) = Inr JNull)"
proof -
  obtain q vs where
    sb: "select_body schema (JObj (obj_set [(''where'', w)] ''take'' (JNum 1))) = Inr (q, vs)"
    using select_body_where_only by blast
  with assms have
    b: "buildSelectQuery m (JObj (obj_set (spread (JObj [(''where'', w)])) ''take'' (JNum 1)))
          = Inr (q, vs)"
    by (simp add: buildSelectQuery_def spread_def)
  have "fst (findUnique client m (JObj [(''where'', w)]) s) = Inr JNull
      \<and> fst (findFirst client m (JObj [(''where'', w)]) s) = Inr JNull"
    if "client (db s) q vs = (Inr res, d)" and "rows res = []"
    for client :: "'a client" and s res d
    using find_one_no_rows [where client = client and s = s, OF b that]
    by (simp add: findUnique_def findFirst_def)
  with b show ?thesis by blast
qed

theorem find_returns_null_when_no_row_witness:
  "SCHEMA_MAPPING ''user'' = Some user_schema
   \<and> buildSelectQuery ''user''
        (JObj (obj_set (spread (JObj [(''where'', JObj [(''id'', JNum 999)])])) ''take'' (JNum 1)))
       = Inr (''SELECT * FROM '' @ quote_ident ''users'' @ '' WHERE '' @ quote_ident ''id''
                @ '' = $1 LIMIT 1'', [JNum 999])
   \<and> scripted_client [Inr \<lparr>rows = [], rowCount = Some 0\<rparr>]
        (''SELECT * FROM '' @ quote_ident ''users'' @ '' WHERE '' @ quote_ident ''id''
           @ '' = $1 LIMIT 1'') [JNum 999]
       = (Inr \<lparr>rows = [], rowCount = Some 0\<rparr>, [])
   \<and> fst (findUnique scripted_client ''user'' (JObj [(''where'', JObj [(''id'', JNum 999)])])
          \<lparr>db = [Inr \<lparr>rows = [], rowCount = Some 0\<rparr>], sent = []\<rparr>) = Inr JNull
   \<and> fst (findFirst scripted_client ''user'' (JObj [(''where'', JObj [(''id'', JNum 999)])])
          \<lparr>db = [Inr \<lparr>rows = [], rowCount = Some 0\<rparr>], sent = []\<rparr>) = Inr JNull"
proof -
  let ?w = "JObj [(''id'', JNum 999)]"
  let ?q = "''SELECT * FROM '' @ quote_ident ''users'' @ '' WHERE '' @ quote_ident ''id''
                @ '' = $1 LIMIT 1''"
  let ?s = "\<lparr>db = [Inr \<lparr>rows = [], rowCount = Some 0\<rparr>], sent = []\<rparr>
              :: (error + qresult) list session"
  have b: "buildSelectQuery ''user'' (JObj (obj_set (spread (JObj [(''where'', ?w)])) ''take'' (JNum 1)))
       = Inr (?q, [JNum 999])"
    by code_simp
  have c: "scripted_client (db ?s) ?q [JNum 999] = (Inr \<lparr>rows = [], rowCount = Some 0\<rparr>, [])"
    by (simp add: scripted_client_def)
  from find_returns_null_when_no_row [OF user_entry, of ?w] b
  have "\<forall>client (s :: (error + qresult) list session) res d.
          client (db s) ?q [JNum 999] = (Inr res, d) \<and> rows res = [] \<longrightarrow>
                fst (findUnique client ''user'' (JObj [(''where'', ?w)]) s) = Inr JNull
              \<and> fst (findFirst client ''user'' (JObj [(''where'', ?w)]) s) = Inr JNull"
    by auto
  from this [rule_format, of scripted_client ?s "\<lparr>rows = [], rowCount = Some 0\<rparr>" "[]"] c
  have "fst (findUnique scripted_client ''user'' (JObj [(''where'', ?w)]) ?s) = Inr JNull
      \<and> fst (findFirst scripted_client ''user'' (JObj [(''where'', ?w)]) ?s) = Inr JNull"
    by simp
  with user_entry b c show ?thesis by simp
qed




end
